theory Spec2Isabelle
  imports Complex_Main "HOL-Library.Product_Lexorder" "HOL-Library.Log_Nat"
begin

section \<open>Errors\<close>

text \<open>
  The exceptions the program can end with. \<open>GrError\<close> is \<^verbatim>\<open>gr.Error(message)\<close>, the only
  exception \<^verbatim>\<open>web-ui.py\<close> raises itself. \<open>OverflowError\<close> is what Python's
  \<^verbatim>\<open>datetime\<close> raises for a value outside its range. \<open>MissingFile\<close> is an attempt to
  read a file that is not there (the exception's class depends on the library that reads),
  and \<open>CapabilityError\<close> any other exception coming out of one of the external libraries
  (moviepy, pytube, pydub, pyannote, transformers).
\<close>

datatype error =
    GrError string
  | OverflowError
  | MissingFile string
  | CapabilityError string

definition bind_err :: "error + 'a \<Rightarrow> ('a \<Rightarrow> error + 'b) \<Rightarrow> error + 'b" where
  "bind_err r f = (case r of Inl e \<Rightarrow> Inl e | Inr x \<Rightarrow> f x)"

section \<open>Timestamps\<close>

text \<open>
  \<^verbatim>\<open>
  TIMESTAMP_FORMAT = "%H:%M:%S.%f"
  base_time = datetime.datetime(1970, 1, 1)

  def format_timestamp(seconds):
      date = base_time + datetime.timedelta(seconds=seconds)
      return date.strftime(TIMESTAMP_FORMAT)[:-4]
  \<close>
  A Python float is an IEEE double, a rational number, and seconds are modelled as \<open>rat\<close>
  (infinities and NaN are left out).
\<close>

text \<open>
  Python's \<^verbatim>\<open>round\<close> to an integer: the nearest one, a tie going to the even one.
\<close>

definition py_round :: "rat \<Rightarrow> int" where
  "py_round x =
     (let f = \<lfloor>x\<rfloor>; d = x - of_int f
      in if d < 1 / 2 then f
         else if 1 / 2 < d then f + 1
         else if even f then f else f + 1)"

text \<open>
  Double arithmetic. \<open>binade x\<close> is the exponent of \<open>x\<close>, the integer \<open>e\<close> with
  \<open>2 ^ e \<le> \<bar>x\<bar> < 2 ^ (e + 1)\<close>. \<open>round_to_double x\<close> is the double nearest to \<open>x\<close>, a tie
  going to the even significand: doubles have 53 significant bits, so near \<open>x\<close> they are
  the multiples of \<open>2 ^ (e - 52)\<close>, and of \<open>2 ^ - 1074\<close> in the subnormal range. (Overflow
  to infinity, from \<open>2 ^ 1024\<close> on, is left out.) A decimal literal of the program denotes
  the double nearest to it, \<open>py_float\<close>.
\<close>

definition binade :: "rat \<Rightarrow> int" where
  "binade x = (if 1 \<le> \<bar>x\<bar> then bitlen \<lfloor>\<bar>x\<bar>\<rfloor> - 1 else - bitlen (\<lceil>1 / \<bar>x\<bar>\<rceil> - 1))"

definition round_to_double :: "rat \<Rightarrow> rat" where
  "round_to_double x =
     (if x = 0 then 0
      else let u = 2 powi max (binade x - 52) (- 1074)
           in of_int (py_round (x / u)) * u)"

definition py_float :: "rat \<Rightarrow> rat" where
  "py_float x = round_to_double x"

text \<open>
  \<^verbatim>\<open>timedelta(seconds=x)\<close> for a float \<open>x\<close>, as CPython computes it: \<^verbatim>\<open>modf\<close> splits \<open>x\<close>
  into its whole part (towards zero) and its fraction; the fraction is multiplied by
  \<open>1e6\<close> in double arithmetic, and that product is rounded to whole microseconds, half to
  even. The value is kept as days, seconds and microseconds with \<open>0 \<le> seconds < 86400\<close>
  and \<open>0 \<le> microseconds < 1000000\<close>; beyond 999999999 days it is an OverflowError.
\<close>

definition seconds_to_microseconds :: "rat \<Rightarrow> int" where
  "seconds_to_microseconds s =
     (let whole = (if 0 \<le> s then \<lfloor>s\<rfloor> else \<lceil>s\<rceil>);
          frac = s - of_int whole
      in whole * 1000000 + py_round (round_to_double (1000000 * frac)))"

record timedelta =
  days :: int
  seconds :: int
  microseconds :: int

definition timedelta_of_seconds :: "rat \<Rightarrow> error + timedelta" where
  "timedelta_of_seconds s =
     (let us = seconds_to_microseconds s;
          d = us div 86400000000
      in if \<bar>d\<bar> > 999999999 then Inl OverflowError
         else Inr \<lparr>days = d,
                   seconds = us div 1000000 mod 86400,
                   microseconds = us mod 1000000\<rparr>)"

text \<open>
  A \<^verbatim>\<open>datetime\<close>: the day as its proleptic Gregorian ordinal (1 is 0001-01-01, 719163 is
  1970-01-01, 3652059 is 9999-12-31), and the time of day.
\<close>

record datetime =
  ordinal :: int
  hour :: nat
  minute :: nat
  second :: nat
  microsecond :: nat

definition base_time :: datetime where
  "base_time = \<lparr>ordinal = 719163, hour = 0, minute = 0, second = 0, microsecond = 0\<rparr>"

definition MAXORDINAL :: int where
  "MAXORDINAL = 3652059"

text \<open>
  \<^verbatim>\<open>datetime.__add__\<close>: the sum is normalised to days, seconds and microseconds, and a day
  outside years 1 to 9999 raises OverflowError.
\<close>

definition datetime_add :: "datetime \<Rightarrow> timedelta \<Rightarrow> error + datetime" where
  "datetime_add dt td =
     (let us = int (microsecond dt) + microseconds td;
          s = int (hour dt) * 3600 + int (minute dt) * 60 + int (second dt) + seconds td
              + us div 1000000;
          d = ordinal dt + days td + s div 86400;
          r = s mod 86400
      in if 0 < d \<and> d \<le> MAXORDINAL
         then Inr \<lparr>ordinal = d,
                   hour = nat (r div 3600),
                   minute = nat (r mod 3600 div 60),
                   second = nat (r mod 60),
                   microsecond = nat (us mod 1000000)\<rparr>
         else Inl OverflowError)"

definition digit_char :: "nat \<Rightarrow> char" where
  "digit_char d = ''0123456789'' ! d"

text \<open>
  A field printed with a fixed width and leading zeros (\<^verbatim>\<open>%H\<close>, \<^verbatim>\<open>%M\<close>, \<^verbatim>\<open>%S\<close> with
  width 2, \<^verbatim>\<open>%f\<close> with width 6): the last \<open>w\<close> decimal digits of \<open>n\<close>. The fields of
  a \<^verbatim>\<open>datetime\<close> are always below \<open>10 ^ w\<close>.
\<close>

fun zero_padded :: "nat \<Rightarrow> nat \<Rightarrow> string" where
  "zero_padded 0 n = []"
| "zero_padded (Suc w) n = digit_char (n div 10 ^ w mod 10) # zero_padded w n"

definition strftime :: "datetime \<Rightarrow> string" where
  "strftime dt =
     zero_padded 2 (hour dt) @ '':'' @ zero_padded 2 (minute dt) @ '':''
       @ zero_padded 2 (second dt) @ ''.'' @ zero_padded 6 (microsecond dt)"

definition format_timestamp :: "rat \<Rightarrow> error + string" where
  "format_timestamp secs =
     bind_err (timedelta_of_seconds secs) (\<lambda>td.
     bind_err (datetime_add base_time td) (\<lambda>date.
       let s = strftime date in Inr (take (length s - 4) s)))"

text \<open>
  Python compares strings lexicographically by code point; \<open>str_le a b\<close> is \<^verbatim>\<open>a <= b\<close>.
\<close>

fun str_le :: "string \<Rightarrow> string \<Rightarrow> bool" where
  "str_le [] ys = True"
| "str_le (x # xs) [] = False"
| "str_le (x # xs) (y # ys) = ((of_char x :: nat) < of_char y \<or> (x = y \<and> str_le xs ys))"

text \<open>
  The reference rendering \<open>HH:MM:SS.cc\<close> of a time of day given in microseconds since
  midnight: two digits each for hours, minutes and seconds, and two digits of hundredths
  of a second, the microseconds below a hundredth being cut off.
\<close>

definition hh_mm_ss_cc :: "nat \<Rightarrow> string" where
  "hh_mm_ss_cc us =
     zero_padded 2 (us div 3600000000) @ '':'' @ zero_padded 2 (us div 60000000 mod 60) @ '':''
       @ zero_padded 2 (us div 1000000 mod 60) @ ''.'' @ zero_padded 2 (us div 10000 mod 100)"

section \<open>Turns, files and external capabilities\<close>

text \<open>
  A turn is one track of a pyannote annotation: a segment with its label. An entry of a
  transcription is the dict built by \<^verbatim>\<open>generate_transcription\<close>, with the keys
  \<^verbatim>\<open>start\<close>, \<^verbatim>\<open>end\<close>, \<^verbatim>\<open>speaker\<close>, \<^verbatim>\<open>text\<close> and \<^verbatim>\<open>track_path\<close>.
\<close>

record turn =
  speaker :: string
  start :: rat
  end_time :: rat

record captioned_turn = turn +
  text_content :: string
  track_path :: string

type_synonym annotation = "turn list"

text \<open>
  The world the program acts on: the files (a path to its content; directories are not
  modelled, and \<^verbatim>\<open>./p\<close> is the file \<^verbatim>\<open>p\<close>) and the progress milestones reported so far
  through \<^verbatim>\<open>gr.Progress\<close>. Logging is left out.
\<close>

record world =
  files :: "string \<rightharpoonup> string"
  progress_log :: "(rat \<times> string) list"

type_synonym 'a action = "world \<Rightarrow> (error + 'a) \<times> world"

definition return_act :: "'a \<Rightarrow> 'a action" where
  "return_act x w = (Inr x, w)"

definition raise_act :: "error \<Rightarrow> 'a action" where
  "raise_act e w = (Inl e, w)"

definition lift_act :: "error + 'a \<Rightarrow> 'a action" where
  "lift_act r w = (r, w)"

definition bind_act :: "'a action \<Rightarrow> ('a \<Rightarrow> 'b action) \<Rightarrow> 'b action" where
  "bind_act m f w = (case m w of (Inl e, w') \<Rightarrow> (Inl e, w') | (Inr x, w') \<Rightarrow> f x w')"

definition read_file :: "string \<Rightarrow> string action" where
  "read_file path w = (case files w path of None \<Rightarrow> (Inl (MissingFile path), w) | Some b \<Rightarrow> (Inr b, w))"

definition write_file :: "string \<Rightarrow> string \<Rightarrow> unit action" where
  "write_file path b w = (Inr (), w\<lparr>files := (files w)(path \<mapsto> b)\<rparr>)"

definition append_file :: "string \<Rightarrow> string \<Rightarrow> unit action" where
  "append_file path b w =
     (Inr (), w\<lparr>files := (files w)(path \<mapsto> (case files w path of None \<Rightarrow> b | Some old \<Rightarrow> old @ b))\<rparr>)"

definition progress :: "rat \<Rightarrow> string \<Rightarrow> unit action" where
  "progress fraction desc w = (Inr (), w\<lparr>progress_log := progress_log w @ [(fraction, desc)]\<rparr>)"

text \<open>
  The libraries the program calls, as functions on file contents. None of them is part of
  the repository; each may fail with an error of its own.
  \<^item> \<open>youtube_download url\<close>: \<^verbatim>\<open>YouTube(url).streams.first().download(...)\<close>, the video.
  \<^item> \<open>video_audio v\<close>: \<^verbatim>\<open>mp.VideoFileClip(f).audio.write_audiofile(..., codec='pcm_s16le')\<close>.
  \<^item> \<open>audio_clip a\<close>: \<^verbatim>\<open>mp.AudioFileClip(f).write_audiofile(..., codec='pcm_s16le')\<close>.
  \<^item> \<open>from_wav\<close>, \<open>slice_ms\<close>, \<open>export_mp3\<close>: pydub's \<^verbatim>\<open>AudioSegment.from_wav\<close>,
    \<^verbatim>\<open>audio[start_ms:end_ms]\<close> and \<^verbatim>\<open>track.export(..., format="mp3")\<close>.
  \<^item> \<open>from_pretrained token\<close>: pyannote's \<^verbatim>\<open>Pipeline.from_pretrained(..., use_auth_token=token)\<close>,
    giving the diarization pipeline, a function of the audio.
  \<^item> \<open>write_rttm\<close>, \<open>rttm_loader\<close>: the annotation as RTTM text, and
    \<^verbatim>\<open>RTTMLoader(file).loaded_['input']\<close>.
  \<^item> \<open>support collar d\<close>: the tracks of \<^verbatim>\<open>d.support(collar).itertracks(yield_label=True)\<close>.
  \<^item> \<open>whisper model\<close>: transformers' \<^verbatim>\<open>pipeline("automatic-speech-recognition", ...)\<close>, giving
    the function from a clip to \<^verbatim>\<open>output['text']\<close>.
\<close>

record capabilities =
  youtube_download :: "string \<Rightarrow> error + string"
  video_audio :: "string \<Rightarrow> error + string"
  audio_clip :: "string \<Rightarrow> error + string"
  from_wav :: "string \<Rightarrow> error + string"
  slice_ms :: "string \<Rightarrow> rat \<Rightarrow> rat \<Rightarrow> error + string"
  export_mp3 :: "string \<Rightarrow> error + string"
  from_pretrained :: "string option \<Rightarrow> error + (string \<Rightarrow> error + annotation)"
  write_rttm :: "annotation \<Rightarrow> string"
  rttm_loader :: "string \<Rightarrow> error + annotation"
  support :: "rat \<Rightarrow> annotation \<Rightarrow> turn list"
  whisper :: "string \<Rightarrow> error + (string \<Rightarrow> error + string)"

section \<open>Start-up\<close>

text \<open>
  \<^verbatim>\<open>
  load_dotenv()
  HUGGINGFACE_AUTH_TOKEN = os.getenv('HUGGINGFACE_AUTH_TOKEN')
  logging.info(f"Hugging Face token: {HUGGINGFACE_AUTH_TOKEN}")
  \<close>
  The module reads the token from the environment (after \<^verbatim>\<open>load_dotenv\<close>) when it is
  loaded; \<^verbatim>\<open>os.getenv\<close> gives \<^verbatim>\<open>None\<close> for a variable that is not set. The result of
  start-up is the value of the global \<^verbatim>\<open>HUGGINGFACE_AUTH_TOKEN\<close>.
\<close>

definition startup :: "(string \<rightharpoonup> string) \<Rightarrow> error + string option" where
  "startup env = Inr (env ''HUGGINGFACE_AUTH_TOKEN'')"

definition TEMP_VIDEO_FILE :: string where
  "TEMP_VIDEO_FILE = ''temp/input.mp4''"

definition TEMP_AUDIO_FILE :: string where
  "TEMP_AUDIO_FILE = ''temp/input.wav''"

definition TEMP_DIARIZATION_FILE :: string where
  "TEMP_DIARIZATION_FILE = ''temp/diarization.rttm''"

section \<open>Source acquisition\<close>

text \<open>
  \<^verbatim>\<open>fetch_youtube\<close> downloads the first stream to the video file, then writes its audio
  track; \<^verbatim>\<open>extract_wav_from_video\<close> and \<^verbatim>\<open>transform_mp3_to_wav\<close> write the audio of a
  local file. (\<^verbatim>\<open>ensure_dir\<close> only creates directories.)
\<close>

definition fetch_youtube :: "capabilities \<Rightarrow> string \<Rightarrow> string \<Rightarrow> string \<Rightarrow> unit action" where
  "fetch_youtube caps url output_video_file output_audio_file =
     bind_act (lift_act (youtube_download caps url)) (\<lambda>stream.
     bind_act (write_file output_video_file stream) (\<lambda>_.
     bind_act (read_file output_video_file) (\<lambda>video.
     bind_act (lift_act (video_audio caps video)) (\<lambda>audio.
       write_file output_audio_file audio))))"

definition extract_wav_from_video :: "capabilities \<Rightarrow> string \<Rightarrow> string \<Rightarrow> unit action" where
  "extract_wav_from_video caps video_file output_audio_file =
     bind_act (read_file video_file) (\<lambda>video.
     bind_act (lift_act (video_audio caps video)) (\<lambda>audio.
       write_file output_audio_file audio))"

definition transform_mp3_to_wav :: "capabilities \<Rightarrow> string \<Rightarrow> string \<Rightarrow> unit action" where
  "transform_mp3_to_wav caps mp3_file output_audio_file =
     bind_act (read_file mp3_file) (\<lambda>mp3.
     bind_act (lift_act (audio_clip caps mp3)) (\<lambda>audio.
       write_file output_audio_file audio))"

section \<open>Audio segment extraction\<close>

text \<open>
  \<^verbatim>\<open>
  def extract_audio_track(input_file, start_time, end_time, track_file):
      audio = AudioSegment.from_wav(input_file)
      start_ms = start_time * 1000
      end_ms = end_time * 1000
      track = audio[start_ms:end_ms]
      track.export(track_file, format="mp3")
  \<close>
\<close>

definition extract_audio_track :: "capabilities \<Rightarrow> string \<Rightarrow> rat \<Rightarrow> rat \<Rightarrow> string \<Rightarrow> unit action" where
  "extract_audio_track caps input_file start_time end_time' track_file =
     bind_act (read_file input_file) (\<lambda>wav.
     bind_act (lift_act (from_wav caps wav)) (\<lambda>audio.
       let start_ms = start_time * 1000;
           end_ms = end_time' * 1000
       in bind_act (lift_act (slice_ms caps audio start_ms end_ms)) (\<lambda>track.
          bind_act (lift_act (export_mp3 caps track)) (\<lambda>mp3.
            write_file track_file mp3))))"

section \<open>Diarization and transcription\<close>

definition generate_speaker_diarization ::
  "capabilities \<Rightarrow> string option \<Rightarrow> string \<Rightarrow> annotation action" where
  "generate_speaker_diarization caps token audio_file =
     bind_act (lift_act (from_pretrained caps token)) (\<lambda>pipeline.
     bind_act (read_file audio_file) (\<lambda>wav.
     bind_act (lift_act (pipeline wav)) (\<lambda>result.
     bind_act (write_file TEMP_DIARIZATION_FILE (write_rttm caps result)) (\<lambda>_.
       return_act result))))"

text \<open>
  The decimal digits of a natural number, and the text Python prints for
  \<^verbatim>\<open>round(x, 2)\<close>: the value rounded half to even to two decimals, with at least one
  decimal and no trailing zero beyond it (\<^verbatim>\<open>0.0\<close>, \<^verbatim>\<open>3.2\<close>, \<^verbatim>\<open>5.25\<close>). Floats of
  \<open>10 ^ 16\<close> and more, which Python prints with an exponent, and the negative zero are
  outside this model.
\<close>

fun decimal :: "nat \<Rightarrow> string" where
  "decimal n = (if n < 10 then [digit_char n] else decimal (n div 10) @ [digit_char (n mod 10)])"

declare decimal.simps [simp del]

definition round2_repr :: "rat \<Rightarrow> string" where
  "round2_repr x =
     (let q = py_round (x * 100);
          a = nat \<bar>q\<bar>;
          f = a mod 100
      in (if q < 0 then ''-'' else []) @ decimal (a div 100) @ ''.''
           @ (if f mod 10 = 0 then [digit_char (f div 10)]
              else [digit_char (f div 10), digit_char (f mod 10)]))"

text \<open>
  \<^verbatim>\<open>str.strip()\<close>: leading and trailing whitespace removed. A character here is a code
  point below 256, and the whitespace of Python among these is 9 to 13, 28 to 32, 133 and
  160.
\<close>

definition is_space :: "char \<Rightarrow> bool" where
  "is_space c = ((of_char c :: nat) \<in> set [9, 10, 11, 12, 13, 28, 29, 30, 31, 32, 133, 160])"

definition strip :: "string \<Rightarrow> string" where
  "strip s = rev (dropWhile is_space (rev (dropWhile is_space s)))"

text \<open>
  \<^verbatim>\<open>shutil.rmtree("output-tracks", ignore_errors=True); os.mkdir("output-tracks")\<close>: every
  file under the directory is gone.
\<close>

definition clear_tracks :: "unit action" where
  "clear_tracks w =
     (Inr (), w\<lparr>files := (\<lambda>p. if take 14 p = ''output-tracks/'' then None else files w p)\<rparr>)"

text \<open>
  One round of the loop of \<^verbatim>\<open>generate_transcription\<close>:
  \<^verbatim>\<open>
      part_file = f"output-tracks/{round(turn.start, 2)}-{speaker}.mp3"
      part_path = os.path.join(os.curdir, part_file)
      extract_audio_track(TEMP_AUDIO_FILE, turn.start, turn.end, part_file)
      with open(part_path, "rb") as audio_content:
          part_data = audio_content.read()
      output = pipe(part_data, batch_size=8, return_timestamps=False)
      text = output['text']
      result.append({'start': turn.start, 'end': turn.end, 'speaker': speaker,
                     'text': text.strip(), 'track_path': part_path})
  \<close>
\<close>

definition transcribe_turn ::
  "capabilities \<Rightarrow> (string \<Rightarrow> error + string) \<Rightarrow> turn \<Rightarrow> captioned_turn action" where
  "transcribe_turn caps pipe t =
     (let part_file = ''output-tracks/'' @ round2_repr (start t) @ ''-'' @ speaker t @ ''.mp3'';
          part_path = ''./'' @ part_file
      in bind_act (extract_audio_track caps TEMP_AUDIO_FILE (start t) (end_time t) part_file) (\<lambda>_.
         bind_act (read_file part_file) (\<lambda>part_data.
         bind_act (lift_act (pipe part_data)) (\<lambda>text'.
           return_act \<lparr>speaker = speaker t, start = start t, end_time = end_time t,
                       text_content = strip text', track_path = part_path\<rparr>))))"

fun transcribe_turns ::
  "capabilities \<Rightarrow> (string \<Rightarrow> error + string) \<Rightarrow> turn list \<Rightarrow> captioned_turn list
     \<Rightarrow> captioned_turn list action" where
  "transcribe_turns caps pipe [] result = return_act result"
| "transcribe_turns caps pipe (t # ts) result =
     bind_act (transcribe_turn caps pipe t) (\<lambda>c. transcribe_turns caps pipe ts (result @ [c]))"

definition generate_transcription ::
  "capabilities \<Rightarrow> annotation \<Rightarrow> string \<Rightarrow> rat \<Rightarrow> captioned_turn list action" where
  "generate_transcription caps diarization model collar =
     bind_act (lift_act (whisper caps model)) (\<lambda>pipe.
     bind_act clear_tracks (\<lambda>_.
       transcribe_turns caps pipe (support caps collar diarization) []))"

section \<open>Formatting and saving\<close>

text \<open>
  \<^verbatim>\<open>
  def format_transcription(transcription):
      result = ""
      for t in transcription:
          result += f"{format_timestamp(t['start'])},{format_timestamp(t['end'])}\n{t['speaker']}: {t['text']}\n\n"
      return result
  \<close>
\<close>

fun format_loop :: "captioned_turn list \<Rightarrow> string \<Rightarrow> error + string" where
  "format_loop [] result = Inr result"
| "format_loop (t # ts) result =
     bind_err (format_timestamp (start t)) (\<lambda>a.
     bind_err (format_timestamp (end_time t)) (\<lambda>b.
       format_loop ts
         (result @ a @ '','' @ b @ ''\<newline>'' @ speaker t @ '': '' @ text_content t @ ''\<newline>\<newline>'')))"

definition format_transcription :: "captioned_turn list \<Rightarrow> error + string" where
  "format_transcription transcription = format_loop transcription []"

text \<open>
  \<^verbatim>\<open>
  def save_transcription(transcription, file_name = ''):
      f = open(file_name + "_output.sub", "w")
      for t in transcription:
          f.write(
              f"{format_timestamp(t['start'])},{format_timestamp(t['end'])}\n{t['speaker']}: {t['text']}\n\n")
      f.close()
  \<close>
  Opening the file for writing empties it, and each \<^verbatim>\<open>write\<close> adds at its end. The file
  holds the text written; the platform's encoding of that text is not modelled.
\<close>

fun save_loop :: "string \<Rightarrow> captioned_turn list \<Rightarrow> unit action" where
  "save_loop f [] = return_act ()"
| "save_loop f (t # ts) =
     bind_act (lift_act (format_timestamp (start t))) (\<lambda>a.
     bind_act (lift_act (format_timestamp (end_time t))) (\<lambda>b.
     bind_act (append_file f
         (a @ '','' @ b @ ''\<newline>'' @ speaker t @ '': '' @ text_content t @ ''\<newline>\<newline>'')) (\<lambda>_.
       save_loop f ts)))"

definition save_transcription :: "captioned_turn list \<Rightarrow> string \<Rightarrow> unit action" where
  "save_transcription transcription file_name =
     bind_act (write_file (file_name @ ''_output.sub'') []) (\<lambda>_.
       save_loop (file_name @ ''_output.sub'') transcription)"

section \<open>The pipeline\<close>

text \<open>
  The inputs of the form are a path or text, or \<^verbatim>\<open>None\<close>; Python takes \<^verbatim>\<open>None\<close> and
  the empty string for false. \<open>base_name\<close> is \<^verbatim>\<open>path.split('/')[-1].split('.')[0]\<close>.
\<close>

definition truthy :: "string option \<Rightarrow> bool" where
  "truthy v = (case v of None \<Rightarrow> False | Some s \<Rightarrow> s \<noteq> [])"

definition str_of :: "string option \<Rightarrow> string" where
  "str_of v = (case v of None \<Rightarrow> [] | Some s \<Rightarrow> s)"

definition base_name :: "string \<Rightarrow> string" where
  "base_name path =
     takeWhile (\<lambda>c. c \<noteq> CHR ''.'') (rev (takeWhile (\<lambda>c. c \<noteq> CHR ''/'') (rev path)))"

text \<open>
  The stages of \<^verbatim>\<open>process_video\<close> that follow source acquisition, for the file name the
  acquisition has set: diarization (run or reused), transcription, formatting and saving.
  \<open>process_video\<close> below is the function as the source has it, in one piece; this part is
  named to state what the run of the pipeline is once a source is chosen.
\<close>

definition after_acquisition ::
  "capabilities \<Rightarrow> string option \<Rightarrow> string \<Rightarrow> rat \<Rightarrow> string list \<Rightarrow> string \<Rightarrow> string action" where
  "after_acquisition caps token model collar skip file_name =
     bind_act
       (if ''Speaker diarization'' \<notin> set skip then
          bind_act (progress (1 / 2) ''Generating speaker diarization... (this may take a while)'') (\<lambda>_.
            generate_speaker_diarization caps token TEMP_AUDIO_FILE)
        else
          bind_act (progress (1 / 2) ''Reusing local dirization file...'') (\<lambda>_.
          bind_act (read_file TEMP_DIARIZATION_FILE) (\<lambda>rttm.
            lift_act (rttm_loader caps rttm))))
       (\<lambda>diarization.
     bind_act (progress (4 / 5) ''Generating transcription... (this may take a while)'') (\<lambda>_.
     bind_act (generate_transcription caps diarization model collar) (\<lambda>transcription.
     bind_act (progress 1 ''Done!'') (\<lambda>_.
     bind_act (lift_act (format_transcription transcription)) (\<lambda>output.
     bind_act (save_transcription transcription file_name) (\<lambda>_.
       return_act output))))))"

definition process_video ::
  "capabilities \<Rightarrow> string option \<Rightarrow> string option \<Rightarrow> string option \<Rightarrow> string option
     \<Rightarrow> string \<Rightarrow> rat \<Rightarrow> string list \<Rightarrow> string action" where
  "process_video caps token youtube_url video_file audio_file model collar skip =
     bind_act
       (if ''Extract audio'' \<notin> set skip then
          if truthy video_file then
            bind_act (progress (1 / 10) ''Processing video file...'') (\<lambda>_.
            bind_act (extract_wav_from_video caps (str_of video_file) TEMP_AUDIO_FILE) (\<lambda>_.
              return_act (base_name (str_of video_file))))
          else if truthy audio_file then
            bind_act (progress (1 / 10) ''Processing audio file...'') (\<lambda>_.
            bind_act (transform_mp3_to_wav caps (str_of audio_file) TEMP_AUDIO_FILE) (\<lambda>_.
              return_act (base_name (str_of audio_file))))
          else if truthy youtube_url then
            bind_act (progress (1 / 10) ''Downloading video...'') (\<lambda>_.
            bind_act (fetch_youtube caps (str_of youtube_url) TEMP_VIDEO_FILE TEMP_AUDIO_FILE) (\<lambda>_.
              return_act []))
          else raise_act (GrError ''Provide either Youtube URL or video file'')
        else
          bind_act (progress (1 / 10) (''Reusing local file... '' @ TEMP_AUDIO_FILE)) (\<lambda>_.
            return_act []))
       (\<lambda>file_name.
     bind_act
       (if ''Speaker diarization'' \<notin> set skip then
          bind_act (progress (1 / 2) ''Generating speaker diarization... (this may take a while)'') (\<lambda>_.
            generate_speaker_diarization caps token TEMP_AUDIO_FILE)
        else
          bind_act (progress (1 / 2) ''Reusing local dirization file...'') (\<lambda>_.
          bind_act (read_file TEMP_DIARIZATION_FILE) (\<lambda>rttm.
            lift_act (rttm_loader caps rttm))))
       (\<lambda>diarization.
     bind_act (progress (4 / 5) ''Generating transcription... (this may take a while)'') (\<lambda>_.
     bind_act (generate_transcription caps diarization model collar) (\<lambda>transcription.
     bind_act (progress 1 ''Done!'') (\<lambda>_.
     bind_act (lift_act (format_transcription transcription)) (\<lambda>output.
     bind_act (save_transcription transcription file_name) (\<lambda>_.
       return_act output)))))))"

section \<open>The turn merger\<close>

text \<open>
  Modelled from the spec: the merge of turns is done by \<^verbatim>\<open>Annotation.support(collar)\<close> of
  the pyannote library, which \<^verbatim>\<open>generate_transcription\<close> only calls; its code is not part
  of the repository. The specification describes it so: the turns are sorted by start,
  ties by end; then, scanning in that order, a turn extends the turn immediately before
  it if and only if that turn has the same speaker and the gap
  \<open>start new - end preceding\<close> is at most the collar, the end becoming the larger of the
  two ends; otherwise the preceding turn is emitted and a new one is opened.
\<close>

fun merge_scan :: "rat \<Rightarrow> turn \<Rightarrow> turn list \<Rightarrow> turn list" where
  "merge_scan collar cur [] = [cur]"
| "merge_scan collar cur (t # ts) =
     (if speaker t = speaker cur \<and> start t - end_time cur \<le> collar
      then merge_scan collar (cur\<lparr>end_time := max (end_time cur) (end_time t)\<rparr>) ts
      else cur # merge_scan collar t ts)"

text \<open>
  Modelled from the spec: the order in which the merger of the specification scans the
  turns, by start and, for equal starts, by end.
\<close>

definition turn_key :: "turn \<Rightarrow> rat \<times> rat" where
  "turn_key t = (start t, end_time t)"

text \<open>
  Modelled from the spec: the turn merger, which stands for \<^verbatim>\<open>Annotation.support(collar)\<close>
  of pyannote: sort, then scan. An empty sequence stays empty.
\<close>

definition turn_merger :: "rat \<Rightarrow> turn list \<Rightarrow> turn list" where
  "turn_merger collar turns =
     (case sort_key turn_key turns of [] \<Rightarrow> [] | t # ts \<Rightarrow> merge_scan collar t ts)"

section \<open>A test double for the external capabilities\<close>

text \<open>
  Canned collaborators for running the pipeline on a concrete case. The diarizer wants a
  token and reports two turns, \<open>(SPEAKER_00, 0.0, 3.2)\<close> and \<open>(SPEAKER_01, 3.2, 6.0)\<close>.
  The audio has one character for each millisecond and lasts six seconds: 3200
  milliseconds of \<open>a\<close>, then 2800 of \<open>b\<close>. For bounds that are not negative, the only ones
  the times of a turn give, the slice follows pydub: a bound beyond the end is cut to the
  end, and an empty window gives an empty clip. (This stand-in refuses a negative bound,
  which pydub counts from the end of the audio.) The recogniser answers
  \<open>hello there\<close> for a clip that starts with \<open>a\<close> and \<open>goodbye now\<close> for any other. The
  merge of turns is \<open>turn_merger\<close>.
\<close>

definition two_turns :: annotation where
  "two_turns =
     [\<lparr>speaker = ''SPEAKER_00'', start = 0, end_time = 3.2\<rparr>,
      \<lparr>speaker = ''SPEAKER_01'', start = 3.2, end_time = 6\<rparr>]"

definition six_seconds :: string where
  "six_seconds = replicate 3200 CHR ''a'' @ replicate 2800 CHR ''b''"

definition clamped_slice :: "string \<Rightarrow> rat \<Rightarrow> rat \<Rightarrow> string" where
  "clamped_slice audio start_ms end_ms =
     (let s = min (nat \<lfloor>start_ms\<rfloor>) (length audio);
          e = min (nat \<lfloor>end_ms\<rfloor>) (length audio)
      in take (e - s) (drop s audio))"

definition stub_caps :: capabilities where
  "stub_caps =
     \<lparr>youtube_download = (\<lambda>url. Inr ''video''),
      video_audio = (\<lambda>video. Inr six_seconds),
      audio_clip = (\<lambda>mp3. Inr six_seconds),
      from_wav = (\<lambda>wav. Inr wav),
      slice_ms = (\<lambda>audio start_ms end_ms.
          if start_ms < 0 \<or> end_ms < 0 then Inl (CapabilityError ''negative bound'')
          else Inr (clamped_slice audio start_ms end_ms)),
      export_mp3 = (\<lambda>track. Inr track),
      from_pretrained = (\<lambda>token. case token of
          None \<Rightarrow> Inl (CapabilityError ''authentication required'')
        | Some t \<Rightarrow> Inr (\<lambda>wav. Inr two_turns)),
      write_rttm = (\<lambda>d. ''rttm''),
      rttm_loader = (\<lambda>rttm. Inr two_turns),
      support = turn_merger,
      whisper = (\<lambda>model. Inr (\<lambda>clip.
          Inr (if take 1 clip = ''a'' then ''hello there'' else ''goodbye now'')))\<rparr>"

definition stub_world :: world where
  "stub_world = \<lparr>files = [''meeting.mp4'' \<mapsto> ''video''], progress_log = []\<rparr>"

text \<open>The audio file alone, as a run that reuses it finds it.\<close>

definition audio_world :: world where
  "audio_world = \<lparr>files = [TEMP_AUDIO_FILE \<mapsto> six_seconds], progress_log = []\<rparr>"

section \<open>Auxiliary notions for the merger\<close>

text \<open>
  The turns of the example of the specification, \<open>[(A,0,5), (A,5.3,8), (B,6,9)]\<close>, and
  the sequences in which no turn can be merged with the one before it.
\<close>

definition example_turns :: "turn list" where
  "example_turns = [\<lparr>speaker = ''A'', start = 0, end_time = 5\<rparr>,
        \<lparr>speaker = ''A'', start = 5.3, end_time = 8\<rparr>,
        \<lparr>speaker = ''B'', start = 6, end_time = 9\<rparr>]"

fun separated :: "rat \<Rightarrow> turn list \<Rightarrow> bool" where
  "separated c [] = True"
| "separated c [a] = True"
| "separated c (a # b # ts) =
     (\<not> (speaker b = speaker a \<and> start b - end_time a \<le> c) \<and> separated c (b # ts))"

section \<open>The timestamp formatter\<close>

subsection \<open>Rounding\<close>

lemma py_round_of_int: "py_round (of_int n) = n"
  by (simp add: py_round_def)

lemma py_round_numeral: "py_round (numeral k) = numeral k"
  using py_round_of_int [of "numeral k"] by simp

lemma py_round_neg_numeral: "py_round (- numeral k) = - numeral k"
  using py_round_of_int [of "- numeral k"] by simp

lemma py_round_zero: "py_round 0 = 0"
  using py_round_of_int [of 0] by simp

lemma py_round_bounds: "\<lfloor>x\<rfloor> \<le> py_round x \<and> py_round x \<le> \<lfloor>x\<rfloor> + 1"
  by (simp add: py_round_def Let_def)

lemma py_round_mono:
  assumes "x \<le> y"
  shows "py_round x \<le> py_round y"
proof (cases "\<lfloor>x\<rfloor> = \<lfloor>y\<rfloor>")
  case True
  then have "x - of_int \<lfloor>x\<rfloor> \<le> y - of_int \<lfloor>y\<rfloor>"
    using assms by simp
  then show ?thesis
    using True by (simp add: py_round_def Let_def)
next
  case False
  then have "\<lfloor>x\<rfloor> + 1 \<le> \<lfloor>y\<rfloor>"
    using floor_mono [OF assms] by simp
  then show ?thesis
    using py_round_bounds [of x] py_round_bounds [of y] by linarith
qed

lemma py_round_nonneg: "0 \<le> x \<Longrightarrow> 0 \<le> py_round x"
  using py_round_mono [of 0 x] by (simp add: py_round_zero)

lemma py_round_nonpos: "x \<le> 0 \<Longrightarrow> py_round x \<le> 0"
  using py_round_mono [of x 0] by (simp add: py_round_zero)

lemma py_round_le_int: "x \<le> of_int n \<Longrightarrow> py_round x \<le> n"
  using py_round_mono [of x "of_int n"] by (simp add: py_round_of_int)

lemma py_round_ge_int: "of_int n \<le> x \<Longrightarrow> n \<le> py_round x"
  using py_round_mono [of "of_int n" x] by (simp add: py_round_of_int)

subsection \<open>Doubles\<close>

lemma binade_bounds:
  assumes "x \<noteq> 0"
  shows "2 powi binade x \<le> \<bar>x\<bar> \<and> \<bar>x\<bar> < 2 powi (binade x + 1)"
proof (cases "1 \<le> \<bar>x\<bar>")
  case True
  define n where "n = \<lfloor>\<bar>x\<bar>\<rfloor>"
  have n: "0 < n" using True by (simp add: n_def)
  define e where "e = bitlen n - 1"
  have e0: "0 \<le> e" using n by (simp add: e_def bitlen_alt_def)
  have b: "2 ^ nat e \<le> n" "n < 2 ^ nat (e + 1)"
    using bitlen_bounds [OF n] by (simp_all add: e_def)
  have be: "binade x = e" using True by (simp add: binade_def n_def e_def)
  have "(2::rat) ^ nat e \<le> of_int n"
    using b(1) by (metis of_int_le_iff of_int_numeral of_int_power)
  also have "\<dots> \<le> \<bar>x\<bar>" by (simp add: n_def)
  finally have lo: "2 powi e \<le> \<bar>x\<bar>" using e0 by (simp add: power_int_nonneg_exp)
  have "n + 1 \<le> 2 ^ nat (e + 1)" using b(2) by simp
  then have "(of_int (n + 1) :: rat) \<le> 2 ^ nat (e + 1)"
    by (metis of_int_le_iff of_int_numeral of_int_power)
  moreover have "\<bar>x\<bar> < of_int (n + 1)"
    unfolding n_def using floor_correct [of "\<bar>x\<bar>"] by blast
  ultimately have "\<bar>x\<bar> < 2 ^ nat (e + 1)" by linarith
  then have hi: "\<bar>x\<bar> < 2 powi (e + 1)" using e0 by (simp add: power_int_nonneg_exp)
  show ?thesis unfolding be using lo hi by simp
next
  case False
  define y where "y = 1 / \<bar>x\<bar>"
  have x0: "0 < \<bar>x\<bar>" using assms by simp
  have y1: "1 < y" using False x0 by (simp add: y_def)
  define m where "m = \<lceil>y\<rceil> - 1"
  have m: "0 < m" using y1 by (simp add: m_def)
  define k where "k = bitlen m"
  have k1: "1 \<le> k" using m by (simp add: k_def bitlen_alt_def)
  have b: "2 ^ nat (k - 1) \<le> m" "m < 2 ^ nat k"
    using bitlen_bounds [OF m] by (simp_all add: k_def)
  have be: "binade x = - k" using False by (simp add: binade_def y_def m_def k_def)
  have ym: "of_int m < y" "y \<le> of_int (m + 1)"
    using ceiling_correct [of y] by (simp_all add: m_def)
  have "m + 1 \<le> 2 ^ nat k" using b(2) by simp
  then have "(of_int (m + 1) :: rat) \<le> 2 ^ nat k"
    by (metis of_int_le_iff of_int_numeral of_int_power)
  with ym(2) have "y \<le> 2 ^ nat k" by linarith
  then have "1 / 2 ^ nat k \<le> 1 / y"
    using y1 by (intro divide_left_mono) simp_all
  then have lo: "2 powi (- k) \<le> \<bar>x\<bar>"
    using k1 x0 by (simp add: y_def power_int_minus_divide power_int_nonneg_exp)
  have "(2::rat) ^ nat (k - 1) \<le> of_int m"
    using b(1) by (metis of_int_le_iff of_int_numeral of_int_power)
  with ym(1) have "2 ^ nat (k - 1) < y" by linarith
  then have "inverse y < inverse (2 ^ nat (k - 1))"
    by (rule less_imp_inverse_less) simp
  then have "1 / y < 1 / 2 ^ nat (k - 1)"
    by (simp only: inverse_eq_divide)
  moreover have "(2::rat) powi (- k + 1) = 1 / 2 ^ nat (k - 1)"
  proof -
    have "(2::rat) powi (- k + 1) = 2 powi (- (k - 1))" by simp
    also have "\<dots> = 1 / 2 powi (k - 1)" by (rule power_int_minus_divide)
    also have "\<dots> = 1 / 2 ^ nat (k - 1)" using k1 by (simp add: power_int_nonneg_exp)
    finally show ?thesis .
  qed
  ultimately have hi: "\<bar>x\<bar> < 2 powi (- k + 1)"
    using x0 by (simp add: y_def)
  show ?thesis unfolding be using lo hi by simp
qed

lemma powi2_less_imp: "(2::rat) powi m < 2 powi n \<Longrightarrow> m < n"
proof (rule ccontr)
  assume l: "(2::rat) powi m < 2 powi n" and "\<not> m < n"
  then have "n \<le> m" by simp
  then have "(2::rat) powi n \<le> 2 powi m" by (rule power_int_increasing) simp
  with l show False by simp
qed

lemma binade_unique:
  assumes "2 powi e \<le> \<bar>x\<bar>" and "\<bar>x\<bar> < 2 powi (e + 1)"
  shows "binade x = e"
proof -
  have p: "(0::rat) < 2 powi e" by (rule zero_less_power_int) simp
  have x: "x \<noteq> 0"
  proof
    assume "x = 0"
    with assms(1) p show False by simp
  qed
  note b = binade_bounds [OF x]
  have "(2::rat) powi binade x < 2 powi (e + 1)" using b assms(2) by linarith
  then have 1: "binade x < e + 1" by (rule powi2_less_imp)
  have "(2::rat) powi e < 2 powi (binade x + 1)" using b assms(1) by linarith
  then have 2: "e < binade x + 1" by (rule powi2_less_imp)
  from 1 2 show ?thesis by simp
qed

lemma binade_mono:
  assumes "0 < x" and "x \<le> y"
  shows "binade x \<le> binade y"
proof -
  have x: "x \<noteq> 0" and y: "y \<noteq> 0" using assms by auto
  have "2 powi binade x \<le> x" using binade_bounds [OF x] assms by simp
  also have "\<dots> \<le> y" by fact
  also have "\<dots> < 2 powi (binade y + 1)" using binade_bounds [OF y] assms by simp
  finally have "(2::rat) powi binade x < 2 powi (binade y + 1)" .
  then have "binade x < binade y + 1" by (rule powi2_less_imp)
  then show ?thesis by simp
qed

lemma round_to_double_0: "round_to_double 0 = 0"
  by (simp add: round_to_double_def)

lemma round_to_double_nonneg: "0 \<le> x \<Longrightarrow> 0 \<le> round_to_double x"
  by (simp add: round_to_double_def Let_def py_round_nonneg)

lemma round_to_double_nonpos:
  assumes "x \<le> 0"
  shows "round_to_double x \<le> 0"
proof (cases "x = 0")
  case True
  then show ?thesis by (simp add: round_to_double_0)
next
  case False
  define u :: rat where "u = 2 powi max (binade x - 52) (- 1074)"
  have u: "0 < u" unfolding u_def by (rule zero_less_power_int) simp
  have "x / u \<le> 0" using assms u by (simp add: divide_le_0_iff)
  then have "py_round (x / u) \<le> 0" by (rule py_round_nonpos)
  then have "of_int (py_round (x / u)) * u \<le> 0"
    using u by (simp add: mult_le_0_iff)
  then show ?thesis
    using False by (simp add: round_to_double_def Let_def u_def)
qed

lemma round_to_double_of_int:
  assumes "\<bar>n\<bar> < 2 ^ 53"
  shows "round_to_double (of_int n) = of_int n"
proof (cases "n = 0")
  case True
  then show ?thesis by (simp add: round_to_double_0)
next
  case False
  define x :: rat where "x = of_int n"
  have x: "x \<noteq> 0" using False by (simp add: x_def)
  define k where "k = max (binade x - 52) (- 1074)"
  have "\<bar>x\<bar> < 2 ^ 53"
    using assms unfolding x_def by (metis of_int_abs of_int_less_iff of_int_numeral of_int_power)
  then have "(2::rat) powi binade x < 2 powi 53"
    using binade_bounds [OF x] by simp
  then have "binade x < 53" by (rule powi2_less_imp)
  then have k0: "k \<le> 0" by (simp add: k_def)
  define j where "j = nat (- k)"
  have kj: "k = - int j" using k0 by (simp add: j_def)
  have u: "(2::rat) powi k = 1 / 2 ^ j"
    unfolding kj by (simp add: power_int_minus_divide)
  have "x / (2 powi k) = of_int (n * 2 ^ j)"
    by (simp add: u x_def)
  then have "py_round (x / (2 powi k)) = n * 2 ^ j"
    by (simp only: py_round_of_int)
  then have "of_int (py_round (x / (2 powi k))) * (2::rat) powi k = x"
    by (simp add: u x_def)
  then show ?thesis
    using x by (simp add: round_to_double_def Let_def k_def [symmetric] x_def [symmetric])
qed

lemma round_to_double_numeral:
  "\<bar>numeral k :: int\<bar> < 2 ^ 53 \<Longrightarrow> round_to_double (numeral k) = numeral k"
  using round_to_double_of_int [of "numeral k"] by simp

lemma round_to_double_neg_numeral:
  "\<bar>numeral k :: int\<bar> < 2 ^ 53 \<Longrightarrow> round_to_double (- numeral k) = - numeral k"
  using round_to_double_of_int [of "- numeral k"] by simp

lemma round_to_double_mono_pos:
  assumes "0 < x" and "x \<le> y"
  shows "round_to_double x \<le> round_to_double y"
proof -
  have x: "x \<noteq> 0" and y: "y \<noteq> 0" and y0: "0 < y" using assms by auto
  define kx ky where "kx = max (binade x - 52) (- 1074)" and "ky = max (binade y - 52) (- 1074)"
  define ux uy :: rat where "ux = 2 powi kx" and "uy = 2 powi ky"
  have ux: "0 < ux" and uy: "0 < uy"
    unfolding ux_def uy_def by (rule zero_less_power_int, simp)+
  have fx: "round_to_double x = of_int (py_round (x / ux)) * ux"
    using x by (simp add: round_to_double_def Let_def ux_def kx_def)
  have fy: "round_to_double y = of_int (py_round (y / uy)) * uy"
    using y by (simp add: round_to_double_def Let_def uy_def ky_def)
  have bm: "binade x \<le> binade y" using assms by (rule binade_mono)
  then have km: "kx \<le> ky" by (simp add: kx_def ky_def)
  show ?thesis
  proof (cases "kx = ky")
    case True
    then have "uy = ux" by (simp add: ux_def uy_def)
    moreover have "x / ux \<le> y / ux" using assms ux by (simp add: divide_right_mono)
    then have "py_round (x / ux) \<le> py_round (y / ux)" by (rule py_round_mono)
    then have "(of_int (py_round (x / ux)) :: rat) \<le> of_int (py_round (y / ux))" by simp
    then have "of_int (py_round (x / ux)) * ux \<le> of_int (py_round (y / ux)) * ux"
      using ux by (simp add: mult_right_mono)
    ultimately show ?thesis by (simp add: fx fy)
  next
    case False
    with km have lt: "kx < ky" by simp
    then have ky: "ky = binade y - 52" unfolding kx_def ky_def by linarith
    have bx: "binade x + 1 \<le> binade y" using lt ky unfolding kx_def by linarith
    define t where "t = max (binade x + 1) kx"
    have t: "t \<le> binade y" using bx lt ky unfolding t_def by linarith
    have tk: "kx \<le> t" unfolding t_def by linarith
    define j where "j = nat (t - kx)"
    have tj: "t = kx + int j" using tk by (simp add: j_def)
    have pt: "(2::rat) powi t = 2 ^ j * ux"
      unfolding tj ux_def by (simp add: power_int_add)
    have "x < 2 powi (binade x + 1)" using binade_bounds [OF x] assms by simp
    also have "\<dots> \<le> 2 powi t" by (rule power_int_increasing) (simp_all add: t_def)
    finally have "x / ux < 2 ^ j" using ux by (simp add: pt pos_divide_less_eq)
    then have "x / ux \<le> of_int (2 ^ j)" by simp
    then have "py_round (x / ux) \<le> 2 ^ j" by (rule py_round_le_int)
    then have "(of_int (py_round (x / ux)) :: rat) \<le> of_int (2 ^ j)"
      by (simp only: of_int_le_iff)
    then have "of_int (py_round (x / ux)) * ux \<le> of_int (2 ^ j) * ux"
      using ux by (simp add: mult_right_mono)
    then have 1: "round_to_double x \<le> 2 powi t" by (simp add: fx pt)
    have 2: "(2::rat) powi t \<le> 2 powi binade y"
      using t by (rule power_int_increasing) simp
    have py: "(2::rat) powi binade y = 2 ^ 52 * uy"
    proof -
      have "binade y = 52 + ky" by (simp add: ky)
      moreover have "(2::rat) powi (52 + ky) = 2 powi 52 * 2 powi ky"
        by (rule power_int_add) simp
      ultimately show ?thesis by (simp add: uy_def)
    qed
    have "2 powi binade y \<le> y" using binade_bounds [OF y] y0 by simp
    then have "2 ^ 52 \<le> y / uy" using uy by (simp add: py pos_le_divide_eq)
    then have "of_int (2 ^ 52) \<le> y / uy" by simp
    then have "2 ^ 52 \<le> py_round (y / uy)" by (rule py_round_ge_int)
    then have "(of_int (2 ^ 52) :: rat) \<le> of_int (py_round (y / uy))"
      by (simp only: of_int_le_iff)
    then have "of_int (2 ^ 52) * uy \<le> of_int (py_round (y / uy)) * uy"
      using uy by (simp add: mult_right_mono)
    then have 3: "2 powi binade y \<le> round_to_double y" by (simp add: fy py)
    from 1 2 3 show ?thesis by linarith
  qed
qed

lemma round_to_double_mono_nonneg:
  assumes "0 \<le> x" and "x \<le> y"
  shows "round_to_double x \<le> round_to_double y"
proof (cases "x = 0")
  case True
  then show ?thesis using assms round_to_double_nonneg [of y] by (simp add: round_to_double_0)
next
  case False
  with assms have "0 < x" by simp
  then show ?thesis using assms(2) by (rule round_to_double_mono_pos)
qed

subsection \<open>Seconds to microseconds\<close>

lemma seconds_to_microseconds_nonneg:
  assumes "0 \<le> s"
  shows "0 \<le> seconds_to_microseconds s"
proof -
  have "0 \<le> s - of_int \<lfloor>s\<rfloor>" by simp
  then have "0 \<le> round_to_double (1000000 * (s - of_int \<lfloor>s\<rfloor>))"
    by (intro round_to_double_nonneg) simp
  then have "0 \<le> py_round (round_to_double (1000000 * (s - of_int \<lfloor>s\<rfloor>)))"
    by (rule py_round_nonneg)
  moreover have "0 \<le> \<lfloor>s\<rfloor>" using assms by simp
  ultimately show ?thesis
    using assms by (simp add: seconds_to_microseconds_def Let_def)
qed

lemma seconds_to_microseconds_nonpos:
  assumes "s < 0"
  shows "seconds_to_microseconds s \<le> 0"
proof -
  have "s - of_int \<lceil>s\<rceil> \<le> 0" by simp
  then have "round_to_double (1000000 * (s - of_int \<lceil>s\<rceil>)) \<le> 0"
    by (intro round_to_double_nonpos) (simp add: mult_le_0_iff)
  then have 1: "py_round (round_to_double (1000000 * (s - of_int \<lceil>s\<rceil>))) \<le> 0"
    by (rule py_round_nonpos)
  have 2: "\<lceil>s\<rceil> \<le> 0" using assms by (simp add: ceiling_le_iff)
  have "seconds_to_microseconds s =
      \<lceil>s\<rceil> * 1000000 + py_round (round_to_double (1000000 * (s - of_int \<lceil>s\<rceil>)))"
    using assms by (simp add: seconds_to_microseconds_def Let_def)
  with 1 2 show ?thesis by linarith
qed

lemma fraction_microseconds_bounds:
  fixes f :: rat
  assumes "0 \<le> f" and "f < 1"
  shows "0 \<le> py_round (round_to_double (1000000 * f))"
    and "py_round (round_to_double (1000000 * f)) \<le> 1000000"
proof -
  have "0 \<le> round_to_double (1000000 * f)"
    using assms by (intro round_to_double_nonneg) simp
  then show "0 \<le> py_round (round_to_double (1000000 * f))" by (rule py_round_nonneg)
  have "round_to_double (1000000 * f) \<le> round_to_double (of_int 1000000)"
    using assms by (intro round_to_double_mono_nonneg) simp_all
  also have "\<dots> = of_int 1000000" by (rule round_to_double_of_int) simp
  finally show "py_round (round_to_double (1000000 * f)) \<le> 1000000"
    by (rule py_round_le_int)
qed

lemma seconds_to_microseconds_mono:
  assumes "0 \<le> b" and "b \<le> a"
  shows "seconds_to_microseconds b \<le> seconds_to_microseconds a"
proof -
  define A B where "A = \<lfloor>a\<rfloor>" and "B = \<lfloor>b\<rfloor>"
  define fa fb where "fa = a - of_int A" and "fb = b - of_int B"
  have a0: "0 \<le> a" using assms by simp
  have ua: "seconds_to_microseconds a = A * 1000000 + py_round (round_to_double (1000000 * fa))"
    using a0 by (simp add: seconds_to_microseconds_def Let_def A_def fa_def)
  have ub: "seconds_to_microseconds b = B * 1000000 + py_round (round_to_double (1000000 * fb))"
    using assms(1) by (simp add: seconds_to_microseconds_def Let_def B_def fb_def)
  have fa: "0 \<le> fa" "fa < 1" and fb: "0 \<le> fb" "fb < 1"
    unfolding fa_def fb_def A_def B_def by linarith+
  have BA: "B \<le> A" unfolding A_def B_def using assms(2) by (rule floor_mono)
  show ?thesis
  proof (cases "A = B")
    case True
    then have "fb \<le> fa" using assms(2) by (simp add: fa_def fb_def)
    then have "round_to_double (1000000 * fb) \<le> round_to_double (1000000 * fa)"
      using fb(1) by (intro round_to_double_mono_nonneg) simp_all
    then have "py_round (round_to_double (1000000 * fb))
        \<le> py_round (round_to_double (1000000 * fa))"
      by (rule py_round_mono)
    then show ?thesis using True by (simp add: ua ub)
  next
    case False
    with BA have "B + 1 \<le> A" by simp
    then show ?thesis
      using fraction_microseconds_bounds(1) [OF fa] fraction_microseconds_bounds(2) [OF fb]
      unfolding ua ub by linarith
  qed
qed

lemma seconds_to_microseconds_exact:
  assumes "s = of_int w + of_int m / 1000000"
    and "(0 \<le> w \<and> 0 \<le> m \<and> m < 1000000) \<or> (w \<le> 0 \<and> m \<le> 0 \<and> - 1000000 < m)"
  shows "seconds_to_microseconds s = w * 1000000 + m"
proof -
  define f :: rat where "f = of_int m / 1000000"
  have s: "s = of_int w + f" by (simp add: assms(1) f_def)
  have fm: "1000000 * f = of_int m" by (simp add: f_def)
  have m: "\<bar>m\<bar> < 2 ^ 53" using assms(2) by auto
  have r: "py_round (round_to_double (1000000 * f)) = m"
    unfolding fm by (simp only: round_to_double_of_int [OF m] py_round_of_int)
  from assms(2) show ?thesis
  proof
    assume h: "0 \<le> w \<and> 0 \<le> m \<and> m < 1000000"
    then have f: "0 \<le> f" "f < 1" by (simp_all add: f_def)
    then have "\<lfloor>s\<rfloor> = w" unfolding s by (simp add: floor_unique)
    moreover have "0 \<le> s" using h f unfolding s by simp
    ultimately show ?thesis
      using r by (simp add: seconds_to_microseconds_def Let_def s)
  next
    assume h: "w \<le> 0 \<and> m \<le> 0 \<and> - 1000000 < m"
    then have f: "f \<le> 0" "- 1 < f" by (simp_all add: f_def)
    show ?thesis
    proof (cases "m = 0")
      case True
      then have "s = of_int w" by (simp add: s f_def)
      then show ?thesis
        using r True by (simp add: seconds_to_microseconds_def Let_def f_def)
    next
      case False
      with h have "f < 0" by (simp add: f_def)
      then have "s < 0" using h unfolding s by simp
      moreover have "\<lceil>s\<rceil> = w" unfolding s using f \<open>f < 0\<close> by (simp add: ceiling_unique)
      ultimately show ?thesis
        using r by (simp add: seconds_to_microseconds_def Let_def s)
    qed
  qed
qed

lemma us_0: "seconds_to_microseconds 0 = 0"
  using seconds_to_microseconds_exact [of 0 0 0] by simp

lemma us_1: "seconds_to_microseconds 1 = 1000000"
  using seconds_to_microseconds_exact [of 1 1 0] by simp

lemma us_6: "seconds_to_microseconds 6 = 6000000"
  using seconds_to_microseconds_exact [of 6 6 0] by simp

lemma us_day: "seconds_to_microseconds 86400 = 86400000000"
  using seconds_to_microseconds_exact [of 86400 86400 0] by simp

lemma us_minus_1: "seconds_to_microseconds (- 1) = - 1000000"
  using seconds_to_microseconds_exact [of "- 1" "- 1" 0] by simp

lemma us_3_2: "seconds_to_microseconds 3.2 = 3200000"
  using seconds_to_microseconds_exact [of "3.2" 3 200000] by simp

lemma us_3661: "seconds_to_microseconds 3661.2505 = 3661250500"
  using seconds_to_microseconds_exact [of "3661.2505" 3661 250500] by simp

lemma us_1_999: "seconds_to_microseconds 1.999 = 1999000"
  using seconds_to_microseconds_exact [of "1.999" 1 999000] by simp

lemma round_to_double_eval:
  assumes "2 powi e \<le> \<bar>x\<bar>" and "\<bar>x\<bar> < 2 powi (e + 1)" and "- 1022 \<le> e"
  shows "round_to_double x = of_int (py_round (x / 2 powi (e - 52))) * 2 powi (e - 52)"
proof -
  have b: "binade x = e" using assms(1,2) by (rule binade_unique)
  have p: "(0::rat) < 2 powi e" by (rule zero_less_power_int) simp
  have x: "x \<noteq> 0"
  proof
    assume "x = 0"
    with assms(1) p show False by simp
  qed
  have "max (e - 52) (- 1074) = e - 52" using assms(3) by simp
  then show ?thesis
    using x by (simp add: round_to_double_def Let_def b)
qed

lemma py_round_nearest:
  assumes "of_int z - 1 / 2 < x" and "x < of_int z + 1 / 2"
  shows "py_round x = z"
proof (cases "of_int z \<le> x")
  case True
  then have "\<lfloor>x\<rfloor> = z" using assms(2) by (intro floor_unique) linarith+
  then show ?thesis using assms(2) by (simp add: py_round_def Let_def)
next
  case False
  have z: "(of_int (z - 1) :: rat) = of_int z - 1" by simp
  have "\<lfloor>x\<rfloor> = z - 1"
    using False assms(1) unfolding z by (intro floor_unique; unfold z) linarith+
  then show ?thesis using assms(1) False by (simp add: py_round_def Let_def)
qed

lemma py_round_tie:
  assumes "x = of_int z + 1 / 2"
  shows "py_round x = (if even z then z else z + 1)"
proof -
  have "\<lfloor>x\<rfloor> = z" unfolding assms by (intro floor_unique) simp_all
  then show ?thesis by (simp add: py_round_def Let_def assms)
qed

lemma seconds_to_microseconds_fraction:
  assumes "- 1 < s" and "s < 1"
  shows "seconds_to_microseconds s = py_round (round_to_double (1000000 * s))"
proof (cases "0 \<le> s")
  case True
  then have "\<lfloor>s\<rfloor> = 0" using assms(2) by (intro floor_unique) simp_all
  then show ?thesis using True by (simp add: seconds_to_microseconds_def Let_def)
next
  case False
  then have "\<lceil>s\<rceil> = 0" using assms(1) by (intro ceiling_unique) simp_all
  then show ?thesis using False by (simp add: seconds_to_microseconds_def Let_def)
qed

lemma py_float_quarter:
  "py_float 0.24999949999999999 = 4503590620171241 / 18014398509481984"
proof -
  have "py_round (0.24999949999999999 / 2 powi (- 3 - 52)) = 9007181240342482"
    by (rule py_round_nearest) simp_all
  then show ?thesis
    unfolding py_float_def
    by (subst round_to_double_eval [where e = "- 3"]) simp_all
qed

lemma product_quarter:
  "round_to_double (1000000 * (4503590620171241 / 18014398509481984)) = 499999 / 2"
proof -
  have "py_round (1000000 * (4503590620171241 / 18014398509481984) / 2 powi (17 - 52)) =
      8589917412130816"
    by (rule py_round_nearest) simp_all
  then show ?thesis
    by (subst round_to_double_eval [where e = 17]) simp_all
qed

lemma us_quarter: "seconds_to_microseconds (py_float 0.24999949999999999) = 250000"
proof -
  have "py_round (499999 / 2) = (if even (249999::int) then 249999 else 249999 + 1)"
    by (rule py_round_tie) simp
  then have r: "py_round (499999 / 2) = 250000" by simp
  have "seconds_to_microseconds (4503590620171241 / 18014398509481984) =
      py_round (round_to_double (1000000 * (4503590620171241 / 18014398509481984)))"
    by (rule seconds_to_microseconds_fraction) simp_all
  then show ?thesis
    by (simp only: py_float_quarter product_quarter r)
qed

lemma py_float_hundredth:
  "py_float (- 0.0100005) = - (5764895753410387 / 576460752303423488)"
proof -
  have "py_round (- 0.0100005 / 2 powi (- 7 - 52)) = - 5764895753410387"
    by (rule py_round_nearest) simp_all
  then show ?thesis
    unfolding py_float_def
    by (subst round_to_double_eval [where e = "- 7"]) simp_all
qed

lemma product_hundredth:
  "round_to_double (1000000 * - (5764895753410387 / 576460752303423488)) = - (20001 / 2)"
proof -
  have "py_round (1000000 * - (5764895753410387 / 576460752303423488) / 2 powi (13 - 52)) =
      - 5497833016786944"
    by (rule py_round_nearest) simp_all
  then show ?thesis
    by (subst round_to_double_eval [where e = 13]) simp_all
qed

lemma us_hundredth: "seconds_to_microseconds (py_float (- 0.0100005)) = - 10000"
proof -
  have "py_round (- (20001 / 2)) = (if even (- 10001 :: int) then - 10001 else - 10001 + 1)"
    by (rule py_round_tie) simp
  then have r: "py_round (- (20001 / 2)) = - 10000" by simp
  have "seconds_to_microseconds (- (5764895753410387 / 576460752303423488)) =
      py_round (round_to_double (1000000 * - (5764895753410387 / 576460752303423488)))"
    by (rule seconds_to_microseconds_fraction) simp_all
  then show ?thesis
    by (simp only: py_float_hundredth product_hundredth r)
qed

subsection \<open>Digits\<close>

lemma zero_padded_2: "zero_padded 2 n = [digit_char (n div 10 mod 10), digit_char (n mod 10)]"
  by (simp add: numeral_2_eq_2)

lemma six_eq: "(6::nat) = Suc (Suc (Suc (Suc (Suc (Suc 0)))))"
  by simp

lemma zero_padded_6:
  "zero_padded 6 n = [digit_char (n div 100000 mod 10), digit_char (n div 10000 mod 10),
     digit_char (n div 1000 mod 10), digit_char (n div 100 mod 10),
     digit_char (n div 10 mod 10), digit_char (n mod 10)]"
  unfolding six_eq by (simp add: numeral_eq_Suc [symmetric] del: One_nat_def)

lemma strftime_cut:
  "take (length (strftime dt) - 4) (strftime dt) =
     zero_padded 2 (hour dt) @ '':'' @ zero_padded 2 (minute dt) @ '':''
       @ zero_padded 2 (second dt) @ ''.''
       @ [digit_char (microsecond dt div 100000 mod 10), digit_char (microsecond dt div 10000 mod 10)]"
  by (simp add: strftime_def zero_padded_2 zero_padded_6)

lemma length_hh_mm_ss_cc: "length (hh_mm_ss_cc us) = 11"
  by (simp add: hh_mm_ss_cc_def zero_padded_2)

subsection \<open>The formatter, case by case\<close>

lemma day_split:
  fixes us :: int
  defines "m \<equiv> nat (us mod 86400000000)"
  shows "us div 1000000 mod 86400 = int (m div 1000000)"
    and "us mod 1000000 = int (m mod 1000000)"
proof -
  have a: "us mod 86400000000 = 1000000 * (us div 1000000 mod 86400) + us mod 1000000"
    using zmod_zmult2_eq [of 86400 us 1000000] by simp
  have b: "0 \<le> us mod 1000000" "us mod 1000000 < 1000000" by simp_all
  have "int m = 1000000 * (us div 1000000 mod 86400) + us mod 1000000"
    using a by (simp add: m_def)
  then have "int m div 1000000 = us div 1000000 mod 86400" "int m mod 1000000 = us mod 1000000"
    using b by simp_all
  then show "us div 1000000 mod 86400 = int (m div 1000000)"
    and "us mod 1000000 = int (m mod 1000000)"
    by (simp_all add: zdiv_int zmod_int)
qed

lemma timedelta_of_seconds_us:
  "timedelta_of_seconds s =
    (let us = seconds_to_microseconds s
     in if \<bar>us div 86400000000\<bar> > 999999999 then Inl OverflowError
        else Inr \<lparr>days = us div 86400000000,
                  seconds = int (nat (us mod 86400000000) div 1000000),
                  microseconds = int (nat (us mod 86400000000) mod 1000000)\<rparr>)"
  by (simp add: timedelta_of_seconds_def Let_def day_split)

lemma datetime_add_base:
  assumes "m < 86400000000"
  shows "datetime_add base_time
           \<lparr>days = d, seconds = int (m div 1000000), microseconds = int (m mod 1000000)\<rparr> =
         (if - 719162 \<le> d \<and> d \<le> 2932896
          then Inr \<lparr>ordinal = 719163 + d, hour = m div 3600000000, minute = m div 60000000 mod 60,
                    second = m div 1000000 mod 60, microsecond = m mod 1000000\<rparr>
          else Inl OverflowError)"
proof -
  define x where "x = m div 1000000"
  have x: "x < 86400" using assms(1) by (simp add: x_def)
  have us: "int (m mod 1000000) div 1000000 = 0" by simp
  have s1: "int x div 86400 = 0" "int x mod 86400 = int x" using x by simp_all
  have h: "x div 3600 = m div 3600000000"
    by (simp add: x_def div_mult2_eq)
  have mi: "x mod 3600 div 60 = m div 60000000 mod 60"
  proof -
    have "x mod 3600 div 60 = x div 60 mod 60"
      using mod_mult2_eq [of x 60 60] by simp
    also have "x div 60 = m div 60000000" by (simp add: x_def div_mult2_eq)
    finally show ?thesis .
  qed
  have f: "nat (int x div 3600) = x div 3600" "nat (int x mod 3600 div 60) = x mod 3600 div 60"
    "nat (int x mod 60) = x mod 60"
    by (simp_all add: nat_div_distrib nat_mod_distrib)
  have r: "(0 < 719163 + d \<and> 719163 + d \<le> 3652059) = (- 719162 \<le> d \<and> d \<le> 2932896)"
    by linarith
  show ?thesis
    by (simp add: datetime_add_def base_time_def MAXORDINAL_def Let_def us s1 f h mi r
        x_def [symmetric] del: of_nat_div of_nat_mod)
qed

lemma hundredths_digits:
  fixes m :: nat
  shows "m mod 1000000 div 100000 mod 10 = m div 10000 mod 100 div 10 mod 10"
    and "m mod 1000000 div 10000 mod 10 = m div 10000 mod 100 mod 10"
proof -
  have a: "m mod 1000000 div 10000 = m div 10000 mod 100"
    using mod_mult2_eq [of m 10000 100] by simp
  have "m mod 1000000 div 100000 = m mod 1000000 div 10000 div 10"
    by (simp add: div_mult2_eq)
  then show "m mod 1000000 div 100000 mod 10 = m div 10000 mod 100 div 10 mod 10"
    by (simp only: a)
  show "m mod 1000000 div 10000 mod 10 = m div 10000 mod 100 mod 10"
    by (simp only: a)
qed

lemma day_range:
  fixes us :: int
  shows "(- 719162 \<le> us div 86400000000 \<and> us div 86400000000 \<le> 2932896) =
         (- 62135596800000000 \<le> us \<and> us < 253402300800000000)"
proof -
  define q r where "q = us div 86400000000" and "r = us mod 86400000000"
  have "us = 86400000000 * q + r" and "0 \<le> r" and "r < 86400000000"
    by (simp_all add: q_def r_def)
  then have "(- 719162 \<le> q \<and> q \<le> 2932896) =
      (- 62135596800000000 \<le> us \<and> us < 253402300800000000)"
    by linarith
  then show ?thesis
    by (simp only: q_def)
qed

lemma format_timestamp_cases:
  "format_timestamp s =
     (let us = seconds_to_microseconds s
      in if - 62135596800000000 \<le> us \<and> us < 253402300800000000
         then Inr (hh_mm_ss_cc (nat (us mod 86400000000)))
         else Inl OverflowError)"
proof -
  define us where "us = seconds_to_microseconds s"
  define m where "m = nat (us mod 86400000000)"
  define d where "d = us div 86400000000"
  have m: "m < 86400000000" by (simp add: m_def)
  have range: "(- 719162 \<le> d \<and> d \<le> 2932896) =
      (- 62135596800000000 \<le> us \<and> us < 253402300800000000)"
    unfolding d_def by (rule day_range)
  have td: "timedelta_of_seconds s =
      (if \<bar>d\<bar> > 999999999 then Inl OverflowError
       else Inr \<lparr>days = d, seconds = int (m div 1000000), microseconds = int (m mod 1000000)\<rparr>)"
    by (simp add: timedelta_of_seconds_us Let_def us_def m_def d_def)
  show ?thesis
  proof (cases "- 719162 \<le> d \<and> d \<le> 2932896")
    case True
    then have "\<not> \<bar>d\<bar> > 999999999" by linarith
    with True show ?thesis
      unfolding format_timestamp_def td bind_err_def us_def [symmetric] Let_def
        range [symmetric] m_def [symmetric]
      by (simp add: datetime_add_base [OF m] strftime_cut hh_mm_ss_cc_def
          hundredths_digits zero_padded_2 [of "m div 10000 mod 100"])
  next
    case False
    then have nr: "(- 719162 \<le> d \<and> d \<le> 2932896) = False" by simp
    have da: "datetime_add base_time
        \<lparr>days = d, seconds = int (m div 1000000), microseconds = int (m mod 1000000)\<rparr> =
        Inl OverflowError"
      unfolding datetime_add_base [OF m] nr by simp
    show ?thesis
      unfolding format_timestamp_def td bind_err_def us_def [symmetric] Let_def
        range [symmetric] m_def [symmetric] nr
      by (simp add: da)
  qed
qed

lemma format_timestamp_us:
  assumes "seconds_to_microseconds s = us"
    and "- 62135596800000000 \<le> us" and "us < 253402300800000000"
  shows "format_timestamp s = Inr (hh_mm_ss_cc (nat (us mod 86400000000)))"
  using assms by (simp add: format_timestamp_cases)

lemma hh_mm_ss_cc_digits:
  "hh_mm_ss_cc us =
     [digit_char (us div 3600000000 div 10 mod 10), digit_char (us div 3600000000 mod 10), CHR '':'',
      digit_char (us div 60000000 mod 60 div 10 mod 10), digit_char (us div 60000000 mod 60 mod 10),
      CHR '':'',
      digit_char (us div 1000000 mod 60 div 10 mod 10), digit_char (us div 1000000 mod 60 mod 10),
      CHR ''.'',
      digit_char (us div 10000 mod 100 div 10 mod 10), digit_char (us div 10000 mod 100 mod 10)]"
  by (simp add: hh_mm_ss_cc_def zero_padded_2)

lemma seconds_to_microseconds_eval:
  assumes "of_int w \<le> s" and "s < of_int w + 1" and "0 \<le> w"
    and "round_to_double (1000000 * (s - of_int w)) = p" and "py_round p = m"
  shows "seconds_to_microseconds s = w * 1000000 + m"
proof -
  have "\<lfloor>s\<rfloor> = w" using assms(1,2) by (rule floor_unique)
  moreover have "0 \<le> s" using assms(1,3) by (simp add: order_trans [of 0 "of_int w" s])
  ultimately show ?thesis
    using assms(4,5) by (simp add: seconds_to_microseconds_def Let_def)
qed

lemma py_float_3661: "py_float 3661.2505 = 2012793748475347 / 549755813888"
proof -
  have "py_round (3661.2505 / 2 powi (11 - 52)) = 8051174993901388"
    by (rule py_round_nearest) simp_all
  then show ?thesis
    unfolding py_float_def
    by (subst round_to_double_eval [where e = 11]) simp_all
qed

lemma product_3661:
  "round_to_double (1000000 * (2012793748475347 / 549755813888 - of_int 3661)) =
     2151778615296875 / 8589934592"
proof -
  have "py_round (1000000 * (2012793748475347 / 549755813888 - of_int 3661) / 2 powi (17 - 52)) =
      8607114461187500"
    by (rule py_round_nearest) simp_all
  then show ?thesis
    by (subst round_to_double_eval [where e = 17]) simp_all
qed

lemma us_py_float_3661: "seconds_to_microseconds (py_float 3661.2505) = 3661250500"
proof -
  have "py_round (2151778615296875 / 8589934592) = 250500"
    by (rule py_round_nearest) simp_all
  with product_3661
  have "seconds_to_microseconds (2012793748475347 / 549755813888) = 3661 * 1000000 + 250500"
    by (rule seconds_to_microseconds_eval [rotated 3]) simp_all
  then show ?thesis
    unfolding py_float_3661 by simp
qed

lemma py_float_1_999: "py_float 1.999 = 4501347827556811 / 2251799813685248"
proof -
  have "py_round (1.999 / 2 powi (0 - 52)) = 9002695655113622"
    by (rule py_round_nearest) simp_all
  then show ?thesis
    unfolding py_float_def
    by (subst round_to_double_eval [where e = 0]) simp_all
qed

lemma product_1_999:
  "round_to_double (1000000 * (4501347827556811 / 2251799813685248 - of_int 1)) =
     8581344657408001 / 8589934592"
proof -
  have "py_round (1000000 * (4501347827556811 / 2251799813685248 - of_int 1) / 2 powi (19 - 52)) =
      8581344657408001"
    by (rule py_round_nearest) simp_all
  then show ?thesis
    by (subst round_to_double_eval [where e = 19]) simp_all
qed

lemma us_py_float_1_999: "seconds_to_microseconds (py_float 1.999) = 1999000"
proof -
  have "py_round (8581344657408001 / 8589934592) = 999000"
    by (rule py_round_nearest) simp_all
  with product_1_999
  have "seconds_to_microseconds (4501347827556811 / 2251799813685248) = 1 * 1000000 + 999000"
    by (rule seconds_to_microseconds_eval [rotated 3]) simp_all
  then show ?thesis
    unfolding py_float_1_999 by simp
qed

lemma format_timestamp_0: "format_timestamp 0 = Inr ''00:00:00.00''"
  using format_timestamp_us [OF us_0]
  by (simp add: hh_mm_ss_cc_digits digit_char_def)

lemma format_timestamp_1: "format_timestamp 1 = Inr ''00:00:01.00''"
  using format_timestamp_us [OF us_1]
  by (simp add: hh_mm_ss_cc_digits digit_char_def)

lemma format_timestamp_3_2: "format_timestamp 3.2 = Inr ''00:00:03.20''"
  using format_timestamp_us [OF us_3_2]
  by (simp add: hh_mm_ss_cc_digits digit_char_def)

lemma format_timestamp_6: "format_timestamp 6 = Inr ''00:00:06.00''"
  using format_timestamp_us [OF us_6]
  by (simp add: hh_mm_ss_cc_digits digit_char_def)

lemma format_timestamp_3661: "format_timestamp 3661.2505 = Inr ''01:01:01.25''"
  using format_timestamp_us [OF us_3661]
  by (simp add: hh_mm_ss_cc_digits digit_char_def)

lemma format_timestamp_1_999: "format_timestamp 1.999 = Inr ''00:00:01.99''"
  using format_timestamp_us [OF us_1_999]
  by (simp add: hh_mm_ss_cc_digits digit_char_def)

lemma format_timestamp_day: "format_timestamp 86400 = Inr ''00:00:00.00''"
  using format_timestamp_us [OF us_day]
  by (simp add: hh_mm_ss_cc_digits digit_char_def)

lemma format_timestamp_minus_1: "format_timestamp (- 1) = Inr ''23:59:59.00''"
  using format_timestamp_us [OF us_minus_1]
  by (simp add: hh_mm_ss_cc_digits digit_char_def)

lemma format_timestamp_py_float_3661:
  "format_timestamp (py_float 3661.2505) = Inr ''01:01:01.25''"
  using format_timestamp_us [OF us_py_float_3661]
  by (simp add: hh_mm_ss_cc_digits digit_char_def)

lemma format_timestamp_py_float_1_999:
  "format_timestamp (py_float 1.999) = Inr ''00:00:01.99''"
  using format_timestamp_us [OF us_py_float_1_999]
  by (simp add: hh_mm_ss_cc_digits digit_char_def)

lemma format_timestamp_quarter:
  "format_timestamp (py_float 0.24999949999999999) = Inr ''00:00:00.25''"
  using format_timestamp_us [OF us_quarter]
  by (simp add: hh_mm_ss_cc_digits digit_char_def)

lemma format_timestamp_hundredth:
  "format_timestamp (py_float (- 0.0100005)) = Inr ''23:59:59.99''"
  using format_timestamp_us [OF us_hundredth]
  by (simp add: hh_mm_ss_cc_digits digit_char_def)

subsection \<open>Order of the renderings\<close>

lemma of_char_digit_char: "d < 10 \<Longrightarrow> (of_char (digit_char d) :: nat) = 48 + d"
proof -
  assume "d < 10"
  then have "d = 0 \<or> d = 1 \<or> d = 2 \<or> d = 3 \<or> d = 4 \<or> d = 5 \<or> d = 6 \<or> d = 7 \<or> d = 8 \<or> d = 9"
    by presburger
  then show ?thesis
    by (elim disjE) (simp_all add: digit_char_def)
qed

lemma digit_char_eq_iff:
  assumes "d < 10" and "e < 10"
  shows "digit_char d = digit_char e \<longleftrightarrow> d = e"
proof
  assume "digit_char d = digit_char e"
  then have "(of_char (digit_char d) :: nat) = of_char (digit_char e)" by simp
  then show "d = e" by (simp add: of_char_digit_char assms)
next
  assume "d = e"
  then show "digit_char d = digit_char e" by simp
qed

lemma two_digit_less:
  fixes a1 a0 b1 b0 :: nat
  assumes "a0 < 10" and "b0 < 10"
  shows "10 * a1 + a0 < 10 * b1 + b0 \<longleftrightarrow> a1 < b1 \<or> (a1 = b1 \<and> a0 < b0)"
  using assms by linarith

lemma two_digit_eq:
  fixes a1 a0 b1 b0 :: nat
  assumes "a0 < 10" and "b0 < 10"
  shows "10 * a1 + a0 = 10 * b1 + b0 \<longleftrightarrow> a1 = b1 \<and> a0 = b0"
proof
  assume e: "10 * a1 + a0 = 10 * b1 + b0"
  have "\<not> a1 < b1" "\<not> b1 < a1"
    using e assms by linarith+
  then have "a1 = b1" by simp
  with e show "a1 = b1 \<and> a0 = b0" by simp
next
  assume "a1 = b1 \<and> a0 = b0"
  then show "10 * a1 + a0 = 10 * b1 + b0" by simp
qed

lemma str_le_pad2:
  assumes "a < 100" and "b < 100"
  shows "str_le (zero_padded 2 a @ r) (zero_padded 2 b @ r') \<longleftrightarrow> a < b \<or> (a = b \<and> str_le r r')"
proof -
  define a1 a0 b1 b0 where "a1 = a div 10" and "a0 = a mod 10" and "b1 = b div 10" and "b0 = b mod 10"
  have a: "a = 10 * a1 + a0" and b: "b = 10 * b1 + b0"
    by (simp_all add: a1_def a0_def b1_def b0_def)
  have l: "a1 < 10" "b1 < 10" "a0 < 10" "b0 < 10"
    using assms by (simp_all add: a1_def a0_def b1_def b0_def)
  have z: "zero_padded 2 a = [digit_char a1, digit_char a0]"
    "zero_padded 2 b = [digit_char b1, digit_char b0]"
    using assms by (simp_all add: zero_padded_2 a1_def a0_def b1_def b0_def)
  have "str_le (zero_padded 2 a @ r) (zero_padded 2 b @ r') \<longleftrightarrow>
      a1 < b1 \<or> (a1 = b1 \<and> (a0 < b0 \<or> (a0 = b0 \<and> str_le r r')))"
    by (simp add: z of_char_digit_char l digit_char_eq_iff)
  also have "\<dots> \<longleftrightarrow> a < b \<or> (a = b \<and> str_le r r')"
    unfolding a b two_digit_less [OF l(3,4)] two_digit_eq [OF l(3,4)] by blast
  finally show ?thesis .
qed

lemma str_le_pad2_end:
  assumes "a < 100" and "b < 100"
  shows "str_le (zero_padded 2 a) (zero_padded 2 b) \<longleftrightarrow> a \<le> b"
  using str_le_pad2 [OF assms, of "[]" "[]"] by auto

lemma divmod_less:
  fixes x y k :: nat
  assumes "x < y"
  shows "x div k < y div k \<or> (x div k = y div k \<and> x mod k < y mod k)"
proof (cases "x div k = y div k")
  case True
  have "x = k * (x div k) + x mod k" "y = k * (y div k) + y mod k" by simp_all
  with True assms have "x mod k < y mod k"
    by (metis add_less_cancel_left)
  with True show ?thesis by simp
next
  case False
  with div_le_mono [of x y k] assms show ?thesis by simp
qed

lemma hh_mm_ss_cc_nested:
  "hh_mm_ss_cc us =
     zero_padded 2 (us div 10000 div 100 div 60 div 60) @ '':''
       @ zero_padded 2 (us div 10000 div 100 div 60 mod 60) @ '':''
       @ zero_padded 2 (us div 10000 div 100 mod 60) @ ''.'' @ zero_padded 2 (us div 10000 mod 100)"
proof -
  have "us div 3600000000 = us div 10000 div 100 div 60 div 60"
    and "us div 60000000 = us div 10000 div 100 div 60"
    and "us div 1000000 = us div 10000 div 100"
    by (simp_all add: div_mult2_eq [symmetric])
  then show ?thesis
    by (simp only: hh_mm_ss_cc_def)
qed

lemma hh_mm_ss_cc_mono:
  assumes "a \<le> b" and "b < 86400000000"
  shows "str_le (hh_mm_ss_cc a) (hh_mm_ss_cc b)"
proof -
  define A B where "A = a div 10000" and "B = b div 10000"
  have AB: "A \<le> B" using assms(1) by (simp add: A_def B_def div_le_mono)
  have hb: "B div 100 div 60 div 60 < 100" using assms(2) by (simp add: B_def div_mult2_eq)
  have ha: "A div 100 div 60 div 60 < 100"
    using AB hb div_le_mono [of A B 360000] by (simp add: div_mult2_eq)
  have b60: "x mod 60 < 100" for x :: nat
    by (rule less_trans [OF mod_less_divisor]) simp_all
  note p = str_le_pad2 str_le_pad2_end ha hb b60
  consider (eq) "A = B"
    | (c) "A div 100 = B div 100" "A mod 100 < B mod 100"
    | (s) "A div 100 div 60 = B div 100 div 60" "A div 100 mod 60 < B div 100 mod 60"
    | (m) "A div 100 div 60 div 60 = B div 100 div 60 div 60"
          "A div 100 div 60 mod 60 < B div 100 div 60 mod 60"
    | (h) "A div 100 div 60 div 60 < B div 100 div 60 div 60"
  proof (cases "A = B")
    case True
    then show ?thesis by (rule that(1))
  next
    case False
    then have 1: "A < B" using AB by simp
    show ?thesis
      using divmod_less [OF 1, of 100]
    proof (elim disjE conjE)
      assume "A div 100 = B div 100" and "A mod 100 < B mod 100"
      then show ?thesis by (rule that(2))
    next
      assume 2: "A div 100 < B div 100"
      show ?thesis
        using divmod_less [OF 2, of 60]
      proof (elim disjE conjE)
        assume "A div 100 div 60 = B div 100 div 60"
          and "A div 100 mod 60 < B div 100 mod 60"
        then show ?thesis by (rule that(3))
      next
        assume 3: "A div 100 div 60 < B div 100 div 60"
        show ?thesis
          using divmod_less [OF 3, of 60]
        proof (elim disjE conjE)
          assume "A div 100 div 60 div 60 = B div 100 div 60 div 60"
            and "A div 100 div 60 mod 60 < B div 100 div 60 mod 60"
          then show ?thesis by (rule that(4))
        next
          assume "A div 100 div 60 div 60 < B div 100 div 60 div 60"
          then show ?thesis by (rule that(5))
        qed
      qed
    qed
  qed
  then show ?thesis
    unfolding hh_mm_ss_cc_nested A_def [symmetric] B_def [symmetric]
    using ha hb by cases (simp_all add: p)
qed

subsection \<open>Claims on the timestamp formatter\<close>

text \<open>
  Claim C2, as the code has it. For seconds from 0 to below 24 hours (after the conversion
  to whole microseconds) the formatter returns \<open>HH:MM:SS.cc\<close>: eleven characters with
  exactly two fractional digits, the hundredths of a second, the microseconds below a
  hundredth cut off and not rounded. On this range a larger input never gives a smaller
  string. In particular \<open>0\<close> gives \<open>00:00:00.00\<close>, the float \<open>3661.2505\<close> gives
  \<open>01:01:01.25\<close> and the float \<open>1.999\<close> gives \<open>00:00:01.99\<close>. What is cut is the count of
  microseconds, which \<^verbatim>\<open>timedelta\<close> has rounded: the float \<open>0.24999949999999999\<close> is
  250000 microseconds and gives \<open>00:00:00.25\<close>.
\<close>

theorem format_timestamp_hundredths:
  "(0 \<le> b \<and> b \<le> a \<and> seconds_to_microseconds a < 86400000000 \<longrightarrow>
      format_timestamp a = Inr (hh_mm_ss_cc (nat (seconds_to_microseconds a))) \<and>
      format_timestamp b = Inr (hh_mm_ss_cc (nat (seconds_to_microseconds b))) \<and>
      str_le (hh_mm_ss_cc (nat (seconds_to_microseconds b)))
             (hh_mm_ss_cc (nat (seconds_to_microseconds a))))
   \<and> length (hh_mm_ss_cc n) = 11
   \<and> format_timestamp 0 = Inr ''00:00:00.00''
   \<and> format_timestamp (py_float 3661.2505) = Inr ''01:01:01.25''
   \<and> format_timestamp (py_float 1.999) = Inr ''00:00:01.99''
   \<and> format_timestamp (py_float 0.24999949999999999) = Inr ''00:00:00.25''"
proof -
  have "format_timestamp a = Inr (hh_mm_ss_cc (nat (seconds_to_microseconds a))) \<and>
      format_timestamp b = Inr (hh_mm_ss_cc (nat (seconds_to_microseconds b))) \<and>
      str_le (hh_mm_ss_cc (nat (seconds_to_microseconds b)))
             (hh_mm_ss_cc (nat (seconds_to_microseconds a)))"
    if b: "0 \<le> b" and ba: "b \<le> a" and hi: "seconds_to_microseconds a < 86400000000"
  proof -
    define ua ub where "ua = seconds_to_microseconds a" and "ub = seconds_to_microseconds b"
    have b0: "0 \<le> ub"
      unfolding ub_def using b by (rule seconds_to_microseconds_nonneg)
    have ba': "ub \<le> ua"
      unfolding ua_def ub_def using b ba by (rule seconds_to_microseconds_mono)
    have a1: "ua < 86400000000" using hi by (simp add: ua_def)
    have ma: "ua mod 86400000000 = ua" and mb: "ub mod 86400000000 = ub"
      using b0 ba' a1 by simp_all
    have "format_timestamp a = Inr (hh_mm_ss_cc (nat (ua mod 86400000000)))"
      using b0 ba' a1 by (intro format_timestamp_us) (simp_all add: ua_def)
    then have fa: "format_timestamp a = Inr (hh_mm_ss_cc (nat ua))"
      by (simp only: ma)
    have "format_timestamp b = Inr (hh_mm_ss_cc (nat (ub mod 86400000000)))"
      using b0 ba' a1 by (intro format_timestamp_us) (simp_all add: ub_def)
    then have fb: "format_timestamp b = Inr (hh_mm_ss_cc (nat ub))"
      by (simp only: mb)
    have le: "str_le (hh_mm_ss_cc (nat ub)) (hh_mm_ss_cc (nat ua))"
      using b0 ba' a1 by (intro hh_mm_ss_cc_mono) simp_all
    from fa fb le show ?thesis
      unfolding ua_def ub_def by (intro conjI)
  qed
  then show ?thesis
    using format_timestamp_0 format_timestamp_py_float_3661 format_timestamp_py_float_1_999
      format_timestamp_quarter
    by (simp add: length_hh_mm_ss_cc)
qed

theorem format_timestamp_hundredths_witness:
  "format_timestamp (py_float 3661.2505) = Inr (hh_mm_ss_cc 3661250500)
   \<and> format_timestamp 0 = Inr (hh_mm_ss_cc 0)
   \<and> str_le (hh_mm_ss_cc 0) (hh_mm_ss_cc 3661250500)"
  using format_timestamp_hundredths [of 0 "py_float 3661.2505"] us_py_float_3661 us_0
    py_float_3661
  by simp

text \<open>
  The slice \<^verbatim>\<open>[:-4]\<close> leaves two of the six digits of \<^verbatim>\<open>%f\<close>, not three, and
  \<^verbatim>\<open>%H\<close> is the hour of the day: a full day after the epoch the string starts again at
  \<open>00:00:00.00\<close>, below the string of one second.
\<close>

theorem format_timestamp_three_digits_counterexample:
  "format_timestamp 0 = Inr ''00:00:00.00'' \<and> format_timestamp 0 \<noteq> Inr ''00:00:00.000''
   \<and> format_timestamp (py_float 3661.2505) = Inr ''01:01:01.25''
   \<and> format_timestamp (py_float 3661.2505) \<noteq> Inr ''01:01:01.250''
   \<and> format_timestamp 86400 = Inr ''00:00:00.00'' \<and> format_timestamp 1 = Inr ''00:00:01.00''
   \<and> \<not> str_le ''00:00:01.00'' ''00:00:00.00''"
  using format_timestamp_0 format_timestamp_py_float_3661 format_timestamp_day
    format_timestamp_1
  by simp

text \<open>
  Claim C7, as the code has it. A negative input is not rejected: the formatter returns the
  time of day that lies so many seconds before midnight, \<open>23:59:59.00\<close> for \<open>-1\<close> and
  \<open>23:59:59.99\<close> for the float \<open>-0.0100005\<close>, which is 10000 microseconds before midnight.
  Only an input before the year 1 (more than 62135596800 seconds before the epoch) fails,
  with Python's OverflowError.
\<close>

theorem format_timestamp_negative:
  "(s < 0 \<longrightarrow>
     format_timestamp s =
       (if - 62135596800000000 \<le> seconds_to_microseconds s
        then Inr (hh_mm_ss_cc (nat (seconds_to_microseconds s mod 86400000000)))
        else Inl OverflowError))
   \<and> format_timestamp (- 1) = Inr ''23:59:59.00''
   \<and> format_timestamp (py_float (- 0.0100005)) = Inr ''23:59:59.99''"
proof -
  have "format_timestamp s =
       (if - 62135596800000000 \<le> seconds_to_microseconds s
        then Inr (hh_mm_ss_cc (nat (seconds_to_microseconds s mod 86400000000)))
        else Inl OverflowError)" if "s < 0"
  proof -
    from that have "seconds_to_microseconds s \<le> 0"
      by (rule seconds_to_microseconds_nonpos)
    then have "seconds_to_microseconds s < 253402300800000000" by simp
    then show ?thesis
      by (simp add: format_timestamp_cases Let_def)
  qed
  then show ?thesis
    using format_timestamp_minus_1 format_timestamp_hundredth by simp
qed

theorem format_timestamp_negative_witness:
  "(- 1 :: rat) < 0 \<and> format_timestamp (- 1) = Inr (hh_mm_ss_cc 86399000000)"
  using format_timestamp_negative [of "- 1"] us_minus_1
  by simp

text \<open>The formatter on \<open>-1\<close>: a string, and no error.\<close>

theorem format_timestamp_negative_counterexample:
  "format_timestamp (- 1) = Inr ''23:59:59.00''"
  by (rule format_timestamp_minus_1)

section \<open>The formatter and the writer\<close>

lemma save_loop_ok:
  "format_loop ts acc = Inr s \<Longrightarrow> files w f = Some acc \<Longrightarrow>
     save_loop f ts w = (Inr (), w\<lparr>files := (files w)(f \<mapsto> s)\<rparr>)"
proof (induction ts arbitrary: acc w)
  case Nil
  then have "(files w)(f \<mapsto> s) = files w" by (auto simp: fun_upd_idem_iff)
  then show ?case by (simp add: return_act_def)
next
  case (Cons t ts)
  from Cons.prems(1) obtain a b where a: "format_timestamp (start t) = Inr a"
    and b: "format_timestamp (end_time t) = Inr b"
    and r: "format_loop ts (acc @ a @ '','' @ b @ ''\<newline>'' @ speaker t @ '': '' @ text_content t @ ''\<newline>\<newline>'') = Inr s"
    by (auto simp: bind_err_def split: sum.splits)
  define w' where "w' = w\<lparr>files := (files w)(f \<mapsto> acc @ a @ '','' @ b @ ''\<newline>'' @ speaker t @ '': '' @ text_content t @ ''\<newline>\<newline>'')\<rparr>"
  have "files w' f = Some (acc @ a @ '','' @ b @ ''\<newline>'' @ speaker t @ '': '' @ text_content t @ ''\<newline>\<newline>'')"
    by (simp add: w'_def)
  from Cons.IH [OF r this] have ih: "save_loop f ts w' = (Inr (), w'\<lparr>files := (files w')(f \<mapsto> s)\<rparr>)" .
  have step: "save_loop f (t # ts) w = save_loop f ts w'"
    using a b Cons.prems(2)
    by (simp add: bind_act_def lift_act_def append_file_def w'_def)
  have fin: "w'\<lparr>files := (files w')(f \<mapsto> s)\<rparr> = w\<lparr>files := (files w)(f \<mapsto> s)\<rparr>"
    by (simp add: w'_def)
  show ?case
    by (simp only: step ih fin)
qed

lemma save_loop_error:
  "format_loop ts acc = Inl e \<Longrightarrow> fst (save_loop f ts w) = Inl e"
proof (induction ts arbitrary: acc w)
  case Nil
  then show ?case by simp
next
  case (Cons t ts)
  then show ?case
    by (auto simp: bind_err_def bind_act_def lift_act_def append_file_def split: sum.splits)
qed

lemma save_transcription_ok:
  assumes "format_transcription ts = Inr s"
  shows "save_transcription ts name w = (Inr (), w\<lparr>files := (files w)(name @ ''_output.sub'' \<mapsto> s)\<rparr>)"
proof -
  define w' where "w' = w\<lparr>files := (files w)(name @ ''_output.sub'' \<mapsto> [])\<rparr>"
  have "files w' (name @ ''_output.sub'') = Some []" by (simp add: w'_def)
  from save_loop_ok [OF assms [unfolded format_transcription_def] this]
  have ih: "save_loop (name @ ''_output.sub'') ts w' =
      (Inr (), w'\<lparr>files := (files w')(name @ ''_output.sub'' \<mapsto> s)\<rparr>)" .
  have step: "save_transcription ts name w = save_loop (name @ ''_output.sub'') ts w'"
    by (simp add: save_transcription_def bind_act_def write_file_def w'_def)
  have fin: "w'\<lparr>files := (files w')(name @ ''_output.sub'' \<mapsto> s)\<rparr> =
      w\<lparr>files := (files w)(name @ ''_output.sub'' \<mapsto> s)\<rparr>"
    by (simp add: w'_def)
  show ?thesis
    by (simp only: step ih fin)
qed

lemma save_transcription_error:
  assumes "format_transcription ts = Inl e"
  shows "fst (save_transcription ts name w) = Inl e"
  using save_loop_error [OF assms [unfolded format_transcription_def]]
  by (simp add: save_transcription_def bind_act_def write_file_def)

text \<open>
  Claim C10. For every list of captioned turns, the text \<^verbatim>\<open>format_transcription\<close>
  returns is the content \<^verbatim>\<open>save_transcription\<close> leaves in the subtitle file
  \<^verbatim>\<open>file_name + "_output.sub"\<close>; where the formatter raises (a timestamp out of range),
  the writer raises the same error.
\<close>

theorem save_transcription_writes_format_transcription:
  "(case format_transcription transcription of
      Inr output \<Rightarrow>
        save_transcription transcription file_name w =
          (Inr (), w\<lparr>files := (files w)(file_name @ ''_output.sub'' \<mapsto> output)\<rparr>)
    | Inl e \<Rightarrow> fst (save_transcription transcription file_name w) = Inl e)"
  by (simp add: save_transcription_ok save_transcription_error split: sum.split)

section \<open>The merger of the specification\<close>

lemma merge_scan_not_Nil: "merge_scan c cur ts \<noteq> []"
  by (induction ts arbitrary: cur) auto

lemma merge_scan_hd:
  "speaker (hd (merge_scan c cur ts)) = speaker cur \<and> start (hd (merge_scan c cur ts)) = start cur"
  by (induction ts arbitrary: cur) auto

lemma separated_Cons:
  "separated c (a # ts) \<longleftrightarrow>
     (ts = [] \<or> (\<not> (speaker (hd ts) = speaker a \<and> start (hd ts) - end_time a \<le> c)
        \<and> separated c ts))"
  by (cases ts) auto

lemma separated_merge_scan: "separated c (merge_scan c cur ts)"
proof (induction ts arbitrary: cur)
  case Nil
  then show ?case by simp
next
  case (Cons t ts)
  show ?case
  proof (cases "speaker t = speaker cur \<and> start t - end_time cur \<le> c")
    case True
    then show ?thesis using Cons.IH by simp
  next
    case False
    then show ?thesis
      using Cons.IH [of t] merge_scan_hd [of c t ts] merge_scan_not_Nil [of c t ts]
      by (auto simp: separated_Cons)
  qed
qed

lemma merge_scan_separated: "separated c (cur # ts) \<Longrightarrow> merge_scan c cur ts = cur # ts"
  by (induction ts arbitrary: cur) auto

lemma merge_scan_keys:
  "x \<in> set (merge_scan c cur ts) \<Longrightarrow>
     \<exists>t \<in> set (cur # ts). start x = start t \<and> end_time t \<le> end_time x"
proof (induction ts arbitrary: cur)
  case Nil
  then show ?case by simp
next
  case (Cons t ts)
  show ?case
  proof (cases "speaker t = speaker cur \<and> start t - end_time cur \<le> c")
    case True
    with Cons.prems have "x \<in> set (merge_scan c (cur\<lparr>end_time := max (end_time cur) (end_time t)\<rparr>) ts)"
      by simp
    from Cons.IH [OF this] show ?thesis
      by (auto simp: max_def split: if_splits intro: order_trans)
  next
    case False
    with Cons.prems have "x = cur \<or> x \<in> set (merge_scan c t ts)" by simp
    then show ?thesis
      using Cons.IH [of t] by auto
  qed
qed

lemma turn_key_le:
  "turn_key a \<le> turn_key b \<longleftrightarrow>
     start a < start b \<or> (start a = start b \<and> end_time a \<le> end_time b)"
  by (auto simp: turn_key_def)

lemma sorted_merge_scan:
  "sorted (map turn_key (cur # ts)) \<Longrightarrow> sorted (map turn_key (merge_scan c cur ts))"
proof (induction ts arbitrary: cur)
  case Nil
  then show ?case by simp
next
  case (Cons t ts)
  from Cons.prems have ct: "turn_key cur \<le> turn_key t"
    and ts: "\<forall>x \<in> set ts. turn_key t \<le> turn_key x"
    and cs: "\<forall>x \<in> set ts. turn_key cur \<le> turn_key x"
    and st: "sorted (map turn_key (t # ts))"
    by auto
  show ?case
  proof (cases "speaker t = speaker cur \<and> start t - end_time cur \<le> c")
    case True
    define cur' where "cur' = cur\<lparr>end_time := max (end_time cur) (end_time t)\<rparr>"
    have "turn_key cur' \<le> turn_key x" if "x \<in> set ts" for x
      using ct ts cs that unfolding turn_key_le cur'_def
      by (auto simp: max_def)
    then have "sorted (map turn_key (cur' # ts))"
      using st by auto
    from Cons.IH [OF this] show ?thesis
      using True by (simp add: cur'_def)
  next
    case False
    have "turn_key cur \<le> turn_key x" if "x \<in> set (merge_scan c t ts)" for x
    proof -
      from merge_scan_keys [OF that] obtain t0 where t0: "t0 \<in> set (t # ts)"
        and k: "start x = start t0" "end_time t0 \<le> end_time x"
        by blast
      have "turn_key cur \<le> turn_key t0" using t0 ct cs by auto
      moreover have "turn_key t0 \<le> turn_key x" using k by (simp add: turn_key_le)
      ultimately show ?thesis by (rule order_trans)
    qed
    then show ?thesis
      using False Cons.IH [OF st] by auto
  qed
qed

lemma sorted_turn_merger: "sorted (map turn_key (turn_merger c ts))"
proof (cases "sort_key turn_key ts")
  case Nil
  then show ?thesis by (simp add: turn_merger_def)
next
  case (Cons t ts')
  have "sorted (map turn_key (sort_key turn_key ts))" by (rule sorted_sort_key)
  then have "sorted (map turn_key (t # ts'))" by (simp only: Cons)
  then show ?thesis
    using Cons by (simp add: turn_merger_def sorted_merge_scan del: sorted_wrt.simps)
qed

lemma sorted_start: "sorted (map turn_key xs) \<Longrightarrow> sorted (map start xs)"
proof (induction xs)
  case Nil
  then show ?case by simp
next
  case (Cons a xs)
  then show ?case
    by (auto simp: turn_key_le)
qed

lemma turn_merger_sorted_input:
  "sorted (map turn_key (t # ts)) \<Longrightarrow> turn_merger c (t # ts) = merge_scan c t ts"
  using sort_key_id_if_sorted [of turn_key "t # ts"]
  by (simp add: turn_merger_def del: sorted_wrt.simps)

lemma turn_merger_idem: "turn_merger c (turn_merger c ts) = turn_merger c ts"
proof (cases "sort_key turn_key ts")
  case Nil
  then show ?thesis by (simp add: turn_merger_def)
next
  case (Cons t ts')
  define out where "out = merge_scan c t ts'"
  have out: "turn_merger c ts = out" using Cons by (simp add: turn_merger_def out_def)
  have ne: "out \<noteq> []" by (simp add: out_def merge_scan_not_Nil)
  then obtain a as where as: "out = a # as" by (cases out) auto
  have "sorted (map turn_key out)" using sorted_turn_merger [of c ts] by (simp only: out)
  then have s: "sorted (map turn_key (a # as))" by (simp only: as)
  have "separated c out" by (simp add: out_def separated_merge_scan)
  then have "merge_scan c a as = a # as"
    unfolding as by (rule merge_scan_separated)
  then show ?thesis
    unfolding out as using turn_merger_sorted_input [OF s, of c] by simp
qed

lemma merge_scan_snoc:
  "merge_scan c cur (ts @ [t]) =
     (let out = merge_scan c cur ts; p = last out
      in if speaker t = speaker p \<and> start t - end_time p \<le> c
         then butlast out @ [p\<lparr>end_time := max (end_time p) (end_time t)\<rparr>]
         else out @ [t])"
proof (induction ts arbitrary: cur)
  case Nil
  then show ?case by (simp add: Let_def)
next
  case (Cons a ts)
  show ?case
  proof (cases "speaker a = speaker cur \<and> start a - end_time cur \<le> c")
    case True
    then show ?thesis using Cons.IH by simp
  next
    case False
    then have step: "merge_scan c cur (a # ts @ [t]) = cur # merge_scan c a (ts @ [t])"
      and step': "merge_scan c cur (a # ts) = cur # merge_scan c a ts"
      by auto
    show ?thesis
      unfolding append_Cons step step' Cons.IH [of a]
      using merge_scan_not_Nil [of c a ts] by (simp add: Let_def)
  qed
qed

lemma turn_merger_snoc:
  assumes "sorted (map turn_key (ts @ [t]))" and "ts \<noteq> []"
  shows "turn_merger c (ts @ [t]) =
     (let out = turn_merger c ts; p = last out
      in if speaker t = speaker p \<and> start t - end_time p \<le> c
         then butlast out @ [p\<lparr>end_time := max (end_time p) (end_time t)\<rparr>]
         else out @ [t])"
proof -
  from assms(2) obtain a as where ts: "ts = a # as" by (cases ts) auto
  have s1: "sorted (map turn_key (a # as @ [t]))" using assms(1) by (simp only: ts append_Cons)
  then have s2: "sorted (map turn_key (a # as))" by (simp add: sorted_append)
  show ?thesis
    unfolding ts append_Cons turn_merger_sorted_input [OF s1] turn_merger_sorted_input [OF s2]
    by (rule merge_scan_snoc)
qed

lemma turn_merger_example_1:
  "turn_merger 0.5 example_turns =
     [\<lparr>speaker = ''A'', start = 0, end_time = 8\<rparr>, \<lparr>speaker = ''B'', start = 6, end_time = 9\<rparr>]"
  by (simp add: turn_merger_def turn_key_def example_turns_def)

lemma turn_merger_example_2:
  "turn_merger 0.2 example_turns = example_turns"
  by (simp add: turn_merger_def turn_key_def example_turns_def)

section \<open>Running the pipeline\<close>

lemmas act_defs = bind_act_def return_act_def raise_act_def lift_act_def read_file_def
  write_file_def append_file_def progress_def

lemma process_video_no_source_h:
  assumes "''Extract audio'' \<notin> set skip" and "\<not> truthy video_file" and "\<not> truthy audio_file"
    and "\<not> truthy youtube_url"
  shows "process_video caps token youtube_url video_file audio_file model collar skip w =
    (Inl (GrError ''Provide either Youtube URL or video file''), w)"
  using assms by (simp add: process_video_def bind_act_def raise_act_def)

lemma truthy_None: "\<not> truthy None"
  by (simp add: truthy_def)

lemma precedence_video:
  "truthy video_file \<Longrightarrow>
     process_video caps token youtube_url video_file audio_file model collar skip =
     process_video caps token None video_file None model collar skip"
  by (simp add: process_video_def truthy_None)

lemma precedence_audio:
  "\<not> truthy video_file \<Longrightarrow> truthy audio_file \<Longrightarrow>
     process_video caps token youtube_url video_file audio_file model collar skip =
     process_video caps token None None audio_file model collar skip"
  by (simp add: process_video_def truthy_None)

lemma precedence_url:
  "\<not> truthy video_file \<Longrightarrow> \<not> truthy audio_file \<Longrightarrow>
     process_video caps token youtube_url video_file audio_file model collar skip =
     process_video caps token youtube_url None None model collar skip"
  by (simp add: process_video_def truthy_None)

lemma skip_diarization_token:
  "''Speaker diarization'' \<in> set skip \<Longrightarrow>
     process_video caps token youtube_url video_file audio_file model collar skip =
     process_video caps None youtube_url video_file audio_file model collar skip"
  by (simp add: process_video_def)

lemma diarization_fails_at_from_pretrained:
  "from_pretrained caps token = Inl e \<Longrightarrow>
     generate_speaker_diarization caps token audio_file w = (Inl e, w)"
  by (simp add: generate_speaker_diarization_def bind_act_def lift_act_def)

lemma extract_audio_track_run:
  assumes "files w input_file = Some wav" and "from_wav caps wav = Inr audio"
    and "slice_ms caps audio (start_time * 1000) (end_time' * 1000) = Inr track"
    and "export_mp3 caps track = Inr mp3"
  shows "extract_audio_track caps input_file start_time end_time' track_file w =
    (Inr (), w\<lparr>files := (files w)(track_file \<mapsto> mp3)\<rparr>)"
  using assms by (simp add: extract_audio_track_def act_defs Let_def)

lemma length_six_seconds: "length six_seconds = 6000"
  by (simp add: six_seconds_def)

lemma slice_first: "clamped_slice six_seconds (0 * 1000) (3.2 * 1000) = replicate 3200 CHR ''a''"
  by (simp add: clamped_slice_def length_six_seconds) (simp add: six_seconds_def)

lemma slice_second: "clamped_slice six_seconds (3.2 * 1000) (6 * 1000) = replicate 2800 CHR ''b''"
  by (simp add: clamped_slice_def length_six_seconds) (simp add: six_seconds_def)

lemma slice_beyond: "clamped_slice six_seconds (7 * 1000) (8 * 1000) = []"
  by (simp add: clamped_slice_def length_six_seconds)

lemma slice_backwards: "clamped_slice six_seconds (5 * 1000) (3 * 1000) = []"
  by (simp add: clamped_slice_def length_six_seconds)

lemma extract_beyond:
  "extract_audio_track stub_caps TEMP_AUDIO_FILE 7 8 ''clip.mp3'' audio_world =
     (Inr (), audio_world\<lparr>files := (files audio_world)(''clip.mp3'' \<mapsto> [])\<rparr>)"
  using slice_beyond
  by (intro extract_audio_track_run [where wav = six_seconds and audio = six_seconds])
     (simp_all add: audio_world_def stub_caps_def)

lemma extract_backwards:
  "extract_audio_track stub_caps TEMP_AUDIO_FILE 5 3 ''clip.mp3'' audio_world =
     (Inr (), audio_world\<lparr>files := (files audio_world)(''clip.mp3'' \<mapsto> [])\<rparr>)"
  using slice_backwards
  by (intro extract_audio_track_run [where wav = six_seconds and audio = six_seconds])
     (simp_all add: audio_world_def stub_caps_def)

lemma slice_first_n: "clamped_slice six_seconds 0 3200 = replicate 3200 CHR ''a''"
  using slice_first by simp

lemma slice_second_n: "clamped_slice six_seconds 3200 6000 = replicate 2800 CHR ''b''"
  using slice_second by simp

lemma turn_merger_two_turns: "turn_merger (1 / 2) two_turns = two_turns"
  by (simp add: turn_merger_def turn_key_def two_turns_def)

lemma strip_hello: "strip ''hello there'' = ''hello there''"
  by (simp add: strip_def is_space_def)

lemma strip_goodbye: "strip ''goodbye now'' = ''goodbye now''"
  by (simp add: strip_def is_space_def)

lemma transcription_stub:
  assumes "files w TEMP_AUDIO_FILE = Some six_seconds"
  shows "fst (generate_transcription stub_caps two_turns model (1 / 2) w) =
    Inr [\<lparr>speaker = ''SPEAKER_00'', start = 0, end_time = 16 / 5,
          text_content = ''hello there'',
          track_path = ''./output-tracks/'' @ round2_repr 0 @ ''-SPEAKER_00.mp3''\<rparr>,
         \<lparr>speaker = ''SPEAKER_01'', start = 16 / 5, end_time = 6,
          text_content = ''goodbye now'',
          track_path = ''./output-tracks/'' @ round2_repr (16 / 5) @ ''-SPEAKER_01.mp3''\<rparr>]"
  using assms
  by (simp add: generate_transcription_def transcribe_turn_def extract_audio_track_def
      clear_tracks_def act_defs stub_caps_def TEMP_AUDIO_FILE_def Let_def
      turn_merger_two_turns slice_first_n slice_second_n strip_hello strip_goodbye)
     (simp add: two_turns_def extract_audio_track_def act_defs transcribe_turn_def
      TEMP_AUDIO_FILE_def Let_def slice_first_n slice_second_n strip_hello strip_goodbye)

lemma bind_act_assoc: "bind_act (bind_act m f) g = bind_act m (\<lambda>x. bind_act (f x) g)"
  by (rule ext) (simp add: bind_act_def split: prod.split sum.split)

lemma bind_return: "bind_act (return_act x) f w = f x w"
  by (simp add: bind_act_def return_act_def)

lemma bind_raise: "bind_act (raise_act e) f w = (Inl e, w)"
  by (simp add: bind_act_def raise_act_def)

lemma bind_lift_Inr: "r = Inr x \<Longrightarrow> bind_act (lift_act r) f w = f x w"
  by (simp add: bind_act_def lift_act_def)

lemma bind_lift_Inl: "r = Inl e \<Longrightarrow> bind_act (lift_act r) f w = (Inl e, w)"
  by (simp add: bind_act_def lift_act_def)

lemma bind_progress:
  "bind_act (progress p d) f w = f () (w\<lparr>progress_log := progress_log w @ [(p, d)]\<rparr>)"
  by (simp add: bind_act_def progress_def)

lemma bind_write: "bind_act (write_file p b) f w = f () (w\<lparr>files := (files w)(p \<mapsto> b)\<rparr>)"
  by (simp add: bind_act_def write_file_def)

lemma bind_read: "files w p = Some b \<Longrightarrow> bind_act (read_file p) f w = f b w"
  by (simp add: bind_act_def read_file_def)

lemma bind_fst: "fst (m w) = Inr x \<Longrightarrow> bind_act m f w = f x (snd (m w))"
  by (cases "m w") (auto simp: bind_act_def)

lemmas run_simps = bind_act_assoc bind_return bind_raise bind_lift_Inr bind_lift_Inl
  bind_progress bind_write bind_read

lemma format_timestamp_16_5: "format_timestamp (16 / 5) = Inr ''00:00:03.20''"
  using format_timestamp_3_2 by simp

lemma format_two_turns:
  "format_transcription
     [\<lparr>speaker = ''SPEAKER_00'', start = 0, end_time = 16 / 5,
       text_content = ''hello there'', track_path = p1\<rparr>,
      \<lparr>speaker = ''SPEAKER_01'', start = 16 / 5, end_time = 6,
       text_content = ''goodbye now'', track_path = p2\<rparr>] =
   Inr ''00:00:00.00,00:00:03.20\<newline>SPEAKER_00: hello there\<newline>\<newline>00:00:03.20,00:00:06.00\<newline>SPEAKER_01: goodbye now\<newline>\<newline>''"
  by (simp add: format_transcription_def bind_err_def format_timestamp_0 format_timestamp_16_5
      format_timestamp_6)

lemma pipeline_tail:
  assumes "format_transcription tr = Inr out"
  shows "fst (bind_act (progress p d) (\<lambda>_.
     bind_act (lift_act (format_transcription tr)) (\<lambda>output.
     bind_act (save_transcription tr name) (\<lambda>_.
       return_act output))) w) = Inr out"
  unfolding bind_progress bind_lift_Inr [OF assms]
  by (simp add: bind_act_def save_transcription_ok [OF assms] return_act_def)

lemma stub_run:
  "fst (process_video stub_caps (Some ''hf_token'') None (Some ''meeting.mp4'') None ''base''
         (1 / 2) [] stub_world) =
   Inr ''00:00:00.00,00:00:03.20\<newline>SPEAKER_00: hello there\<newline>\<newline>00:00:03.20,00:00:06.00\<newline>SPEAKER_01: goodbye now\<newline>\<newline>''"
proof -
  define w3 where "w3 = \<lparr>files = [''meeting.mp4'' \<mapsto> ''video'', TEMP_AUDIO_FILE \<mapsto> six_seconds,
      TEMP_DIARIZATION_FILE \<mapsto> ''rttm''],
    progress_log = [(1 / 10, ''Processing video file...''),
      (1 / 2, ''Generating speaker diarization... (this may take a while)''),
      (4 / 5, ''Generating transcription... (this may take a while)'')]\<rparr>"
  have a: "files w3 TEMP_AUDIO_FILE = Some six_seconds"
    by (simp add: w3_def TEMP_AUDIO_FILE_def TEMP_DIARIZATION_FILE_def)
  note tr = bind_fst [where m = "generate_transcription stub_caps two_turns ''base'' (1 / 2)"
      and w = w3, OF transcription_stub [OF a]]
  have run: "process_video stub_caps (Some ''hf_token'') None (Some ''meeting.mp4'') None ''base''
         (1 / 2) [] stub_world =
    bind_act (generate_transcription stub_caps two_turns ''base'' (1 / 2)) (\<lambda>transcription.
     bind_act (progress 1 ''Done!'') (\<lambda>_.
     bind_act (lift_act (format_transcription transcription)) (\<lambda>output.
     bind_act (save_transcription transcription ''meeting'') (\<lambda>_.
       return_act output)))) w3"
    by (simp add: process_video_def truthy_def str_of_def base_name_def run_simps
        extract_wav_from_video_def generate_speaker_diarization_def stub_world_def
        stub_caps_def w3_def)
  show ?thesis
    unfolding run tr by (rule pipeline_tail [OF format_two_turns])
qed

section \<open>Claims on the pipeline and the merger\<close>

lemma stub_run_no_token:
  "process_video stub_caps None None (Some ''meeting.mp4'') None ''base'' (1 / 2) [] stub_world =
     (Inl (CapabilityError ''authentication required''),
      \<lparr>files = [''meeting.mp4'' \<mapsto> ''video'', TEMP_AUDIO_FILE \<mapsto> six_seconds],
       progress_log = [(1 / 10, ''Processing video file...''),
         (1 / 2, ''Generating speaker diarization... (this may take a while)'')]\<rparr>)"
  by (simp add: process_video_def truthy_def str_of_def base_name_def run_simps
      extract_wav_from_video_def generate_speaker_diarization_def stub_world_def
      stub_caps_def)

text \<open>
  Claim C1, as the code has it. For a source with the two diarized turns
  \<open>(SPEAKER_00, 0.0, 3.2)\<close> and \<open>(SPEAKER_01, 3.2, 6.0)\<close>, a recogniser answering
  \<open>hello there\<close> and \<open>goodbye now\<close>, and collar \<open>0.5\<close>, the transcript the pipeline returns
  has timestamps with two fractional digits:
  \<open>00:00:00.00,00:00:03.20\<close>, \<open>SPEAKER_00: hello there\<close>, an empty line,
  \<open>00:00:03.20,00:00:06.00\<close>, \<open>SPEAKER_01: goodbye now\<close>, an empty line. The first part is
  the run of the whole pipeline on the test double, the second the formatter alone on the
  two captioned turns, whatever their track paths.
\<close>

theorem process_video_two_turns:
  "fst (process_video stub_caps (Some ''hf_token'') None (Some ''meeting.mp4'') None ''base''
         0.5 [] stub_world) =
     Inr ''00:00:00.00,00:00:03.20\<newline>SPEAKER_00: hello there\<newline>\<newline>00:00:03.20,00:00:06.00\<newline>SPEAKER_01: goodbye now\<newline>\<newline>''
   \<and> format_transcription
     [\<lparr>speaker = ''SPEAKER_00'', start = 0, end_time = 3.2,
       text_content = ''hello there'', track_path = p1\<rparr>,
      \<lparr>speaker = ''SPEAKER_01'', start = 3.2, end_time = 6,
       text_content = ''goodbye now'', track_path = p2\<rparr>] =
     Inr ''00:00:00.00,00:00:03.20\<newline>SPEAKER_00: hello there\<newline>\<newline>00:00:03.20,00:00:06.00\<newline>SPEAKER_01: goodbye now\<newline>\<newline>''"
  using stub_run format_two_turns [of p1 p2] by simp

theorem process_video_two_turns_counterexample:
  "fst (process_video stub_caps (Some ''hf_token'') None (Some ''meeting.mp4'') None ''base''
         0.5 [] stub_world) \<noteq>
     Inr ''00:00:00.000,00:00:03.200\<newline>SPEAKER_00: hello there\<newline>\<newline>00:00:03.200,00:00:06.000\<newline>SPEAKER_01: goodbye now\<newline>\<newline>''"
  using stub_run by simp

text \<open>
  Claim C3. The merger of the specification extends the turn immediately before a new turn
  if and only if that turn has the same speaker and the gap is at most the collar, the end
  becoming the larger of the two ends, and otherwise emits the new turn as a separate one:
  for a sequence sorted by start (ties by end), adding a last turn \<open>t\<close> changes the result
  for the sequence before it in just this way. For \<open>[(A,0,5), (A,5.3,8), (B,6,9)]\<close> the
  result is \<open>[(A,0,8), (B,6,9)]\<close> with collar \<open>0.5\<close> and the input itself with collar
  \<open>0.2\<close>, and every result is sorted by start.
\<close>

theorem turn_merger_rule:
  "(sorted (map turn_key (ts @ [t])) \<and> ts \<noteq> [] \<longrightarrow>
      turn_merger collar (ts @ [t]) =
        (let out = turn_merger collar ts; p = last out
         in if speaker t = speaker p \<and> start t - end_time p \<le> collar
            then butlast out @ [p\<lparr>end_time := max (end_time p) (end_time t)\<rparr>]
            else out @ [t]))
   \<and> turn_merger 0.5 example_turns =
        [\<lparr>speaker = ''A'', start = 0, end_time = 8\<rparr>, \<lparr>speaker = ''B'', start = 6, end_time = 9\<rparr>]
   \<and> turn_merger 0.2 example_turns = example_turns
   \<and> sorted (map start (turn_merger collar turns))"
  using turn_merger_snoc [of ts t collar] turn_merger_example_1 turn_merger_example_2
    sorted_start [OF sorted_turn_merger, of collar turns]
  by (simp del: sorted_wrt.simps)

theorem turn_merger_rule_witness:
  "turn_merger 0.5
      ([\<lparr>speaker = ''A'', start = 0, end_time = 5\<rparr>] @ [\<lparr>speaker = ''A'', start = 5.3, end_time = 8\<rparr>]) =
     [\<lparr>speaker = ''A'', start = 0, end_time = 8\<rparr>]
   \<and> turn_merger 0.2
      ([\<lparr>speaker = ''A'', start = 0, end_time = 5\<rparr>] @ [\<lparr>speaker = ''A'', start = 5.3, end_time = 8\<rparr>]) =
     [\<lparr>speaker = ''A'', start = 0, end_time = 5\<rparr>, \<lparr>speaker = ''A'', start = 5.3, end_time = 8\<rparr>]"
  using turn_merger_rule [of "[\<lparr>speaker = ''A'', start = 0, end_time = 5\<rparr>]"
      "\<lparr>speaker = ''A'', start = 5.3, end_time = 8\<rparr>" "0.5"]
    turn_merger_rule [of "[\<lparr>speaker = ''A'', start = 0, end_time = 5\<rparr>]"
      "\<lparr>speaker = ''A'', start = 5.3, end_time = 8\<rparr>" "0.2"]
  by (simp add: turn_key_def turn_merger_def)

text \<open>
  Claim C4. The merger of the specification is idempotent: merging a merged sequence again
  with the same collar gives the same sequence, for every sequence of turns and every
  collar.
\<close>

theorem turn_merger_idempotent:
  "turn_merger collar (turn_merger collar turns) = turn_merger collar turns"
  by (rule turn_merger_idem)

text \<open>
  Claim C5. When source acquisition is not skipped and neither a video file, nor an audio
  file, nor a URL is supplied, the run ends with
  \<^verbatim>\<open>gr.Error("Provide either Youtube URL or video file")\<close>, the program's error for an
  invalid argument, and the world is as before: no file is written and no progress
  milestone is reported.
\<close>

theorem process_video_no_source:
  assumes "''Extract audio'' \<notin> set skip" and "\<not> truthy video_file" and "\<not> truthy audio_file"
    and "\<not> truthy youtube_url"
  shows "process_video caps token youtube_url video_file audio_file model collar skip w =
    (Inl (GrError ''Provide either Youtube URL or video file''), w)"
  using assms by (rule process_video_no_source_h)

theorem process_video_no_source_witness:
  "process_video stub_caps (Some ''hf_token'') (Some []) None None ''base'' 0.5 [''Speaker diarization'']
     stub_world =
    (Inl (GrError ''Provide either Youtube URL or video file''), stub_world)"
  using process_video_no_source [of "[''Speaker diarization'']" None None "Some []"]
  by (simp add: truthy_def)

lemma bind_return_fun: "bind_act (return_act x) f = f x"
  by (rule ext) (simp add: bind_act_def return_act_def)

lemma acquisition_video:
  assumes "''Extract audio'' \<notin> set skip" and "truthy video_file"
  shows "process_video caps token youtube_url video_file audio_file model collar skip =
    bind_act (bind_act (progress (1 / 10) ''Processing video file...'') (\<lambda>_.
                extract_wav_from_video caps (str_of video_file) TEMP_AUDIO_FILE))
      (\<lambda>_. after_acquisition caps token model collar skip (base_name (str_of video_file)))"
  using assms
  by (simp add: process_video_def after_acquisition_def bind_act_assoc bind_return_fun)

lemma acquisition_audio:
  assumes "''Extract audio'' \<notin> set skip" and "\<not> truthy video_file" and "truthy audio_file"
  shows "process_video caps token youtube_url video_file audio_file model collar skip =
    bind_act (bind_act (progress (1 / 10) ''Processing audio file...'') (\<lambda>_.
                transform_mp3_to_wav caps (str_of audio_file) TEMP_AUDIO_FILE))
      (\<lambda>_. after_acquisition caps token model collar skip (base_name (str_of audio_file)))"
  using assms
  by (simp add: process_video_def after_acquisition_def bind_act_assoc bind_return_fun)

lemma acquisition_url:
  assumes "''Extract audio'' \<notin> set skip" and "\<not> truthy video_file" and "\<not> truthy audio_file"
    and "truthy youtube_url"
  shows "process_video caps token youtube_url video_file audio_file model collar skip =
    bind_act (bind_act (progress (1 / 10) ''Downloading video...'') (\<lambda>_.
                fetch_youtube caps (str_of youtube_url) TEMP_VIDEO_FILE TEMP_AUDIO_FILE))
      (\<lambda>_. after_acquisition caps token model collar skip [])"
  using assms
  by (simp add: process_video_def after_acquisition_def bind_act_assoc bind_return_fun)

lemma stub_acquire_video:
  "bind_act (bind_act (progress (1 / 10) ''Processing video file...'') (\<lambda>_.
              extract_wav_from_video stub_caps ''meeting.mp4'' TEMP_AUDIO_FILE)) k stub_world =
   k () \<lparr>files = [''meeting.mp4'' \<mapsto> ''video'', TEMP_AUDIO_FILE \<mapsto> six_seconds],
         progress_log = [(1 / 10, ''Processing video file...'')]\<rparr>"
  by (simp add: run_simps extract_wav_from_video_def stub_world_def stub_caps_def)

lemma stub_acquire_audio:
  "bind_act (bind_act (progress (1 / 10) ''Processing audio file...'') (\<lambda>_.
              transform_mp3_to_wav stub_caps ''talk.mp3'' TEMP_AUDIO_FILE)) k stub_world =
   (Inl (MissingFile ''talk.mp3''),
    \<lparr>files = [''meeting.mp4'' \<mapsto> ''video''],
     progress_log = [(1 / 10, ''Processing audio file...'')]\<rparr>)"
  by (simp add: bind_act_assoc bind_progress transform_mp3_to_wav_def stub_world_def)
     (simp add: bind_act_def read_file_def)

lemma stub_acquire_url:
  "bind_act (bind_act (progress (1 / 10) ''Downloading video...'') (\<lambda>_.
              fetch_youtube stub_caps ''https://youtu.be/x'' TEMP_VIDEO_FILE TEMP_AUDIO_FILE))
       k stub_world =
   k () \<lparr>files = [''meeting.mp4'' \<mapsto> ''video'', TEMP_VIDEO_FILE \<mapsto> ''video'',
            TEMP_AUDIO_FILE \<mapsto> six_seconds],
         progress_log = [(1 / 10, ''Downloading video...'')]\<rparr>"
  by (simp add: run_simps fetch_youtube_def stub_world_def stub_caps_def)

text \<open>
  Claim C6. When source acquisition is not skipped, exactly one source is used, a file
  before the URL. With a video file the run is: report \<open>Processing video file...\<close>, write
  the audio of that video file, then the later stages under the base name of the video
  file. Without a video file and with an audio file it is: report
  \<open>Processing audio file...\<close>, convert that audio file, then the later stages under its
  base name. With neither file and a URL it is: report \<open>Downloading video...\<close>, fetch the
  URL, then the later stages under the empty name. And the inputs that lose do not count:
  the run with a video file is the run on the video file alone, the run with an audio file
  and no video file is the run on the audio file alone, and the URL counts only when
  neither file is given.
\<close>

theorem process_video_source_precedence:
  "(''Extract audio'' \<notin> set skip \<and> truthy video_file \<longrightarrow>
      process_video caps token youtube_url video_file audio_file model collar skip w =
      bind_act (bind_act (progress (1 / 10) ''Processing video file...'') (\<lambda>_.
                  extract_wav_from_video caps (str_of video_file) TEMP_AUDIO_FILE))
        (\<lambda>_. after_acquisition caps token model collar skip (base_name (str_of video_file))) w)
   \<and> (''Extract audio'' \<notin> set skip \<and> \<not> truthy video_file \<and> truthy audio_file \<longrightarrow>
      process_video caps token youtube_url video_file audio_file model collar skip w =
      bind_act (bind_act (progress (1 / 10) ''Processing audio file...'') (\<lambda>_.
                  transform_mp3_to_wav caps (str_of audio_file) TEMP_AUDIO_FILE))
        (\<lambda>_. after_acquisition caps token model collar skip (base_name (str_of audio_file))) w)
   \<and> (''Extract audio'' \<notin> set skip \<and> \<not> truthy video_file \<and> \<not> truthy audio_file
        \<and> truthy youtube_url \<longrightarrow>
      process_video caps token youtube_url video_file audio_file model collar skip w =
      bind_act (bind_act (progress (1 / 10) ''Downloading video...'') (\<lambda>_.
                  fetch_youtube caps (str_of youtube_url) TEMP_VIDEO_FILE TEMP_AUDIO_FILE))
        (\<lambda>_. after_acquisition caps token model collar skip []) w)
   \<and> (truthy video_file \<longrightarrow>
      process_video caps token youtube_url video_file audio_file model collar skip w =
      process_video caps token None video_file None model collar skip w)
   \<and> (\<not> truthy video_file \<and> truthy audio_file \<longrightarrow>
      process_video caps token youtube_url video_file audio_file model collar skip w =
      process_video caps token None None audio_file model collar skip w)
   \<and> (\<not> truthy video_file \<and> \<not> truthy audio_file \<longrightarrow>
      process_video caps token youtube_url video_file audio_file model collar skip w =
      process_video caps token youtube_url None None model collar skip w)"
  using acquisition_video [of skip video_file caps token youtube_url audio_file model collar]
    acquisition_audio [of skip video_file audio_file caps token youtube_url model collar]
    acquisition_url [of skip video_file audio_file youtube_url caps token model collar]
    precedence_video [of video_file caps token youtube_url audio_file model collar skip]
    precedence_audio [of video_file audio_file caps token youtube_url model collar skip]
    precedence_url [of video_file audio_file caps token youtube_url model collar skip]
  by simp

text \<open>
  On the test double, with a URL, a video file and an audio file all given, the later
  stages start from the audio of the video file; with the URL and an audio file that is
  not there, the run stops at the audio file; with the URL alone, the video of the URL and
  its audio are written.
\<close>

theorem process_video_source_precedence_witness:
  "process_video stub_caps (Some ''hf_token'') (Some ''https://youtu.be/x'')
       (Some ''meeting.mp4'') (Some ''talk.mp3'') ''base'' 0.5 [] stub_world =
     after_acquisition stub_caps (Some ''hf_token'') ''base'' 0.5 [] ''meeting''
       \<lparr>files = [''meeting.mp4'' \<mapsto> ''video'', TEMP_AUDIO_FILE \<mapsto> six_seconds],
        progress_log = [(1 / 10, ''Processing video file...'')]\<rparr>
   \<and> process_video stub_caps (Some ''hf_token'') (Some ''https://youtu.be/x'') None
       (Some ''talk.mp3'') ''base'' 0.5 [] stub_world =
     (Inl (MissingFile ''talk.mp3''),
      \<lparr>files = [''meeting.mp4'' \<mapsto> ''video''],
       progress_log = [(1 / 10, ''Processing audio file...'')]\<rparr>)
   \<and> process_video stub_caps (Some ''hf_token'') (Some ''https://youtu.be/x'') None None
       ''base'' 0.5 [] stub_world =
     after_acquisition stub_caps (Some ''hf_token'') ''base'' 0.5 [] []
       \<lparr>files = [''meeting.mp4'' \<mapsto> ''video'', TEMP_VIDEO_FILE \<mapsto> ''video'',
          TEMP_AUDIO_FILE \<mapsto> six_seconds],
        progress_log = [(1 / 10, ''Downloading video...'')]\<rparr>"
proof -
  have v: "process_video stub_caps (Some ''hf_token'') (Some ''https://youtu.be/x'')
       (Some ''meeting.mp4'') (Some ''talk.mp3'') ''base'' 0.5 [] stub_world =
      bind_act (bind_act (progress (1 / 10) ''Processing video file...'') (\<lambda>_.
                  extract_wav_from_video stub_caps ''meeting.mp4'' TEMP_AUDIO_FILE))
        (\<lambda>_. after_acquisition stub_caps (Some ''hf_token'') ''base'' 0.5 [] ''meeting'')
        stub_world"
    using process_video_source_precedence [of "[]" "Some ''meeting.mp4''" stub_caps
        "Some ''hf_token''" "Some ''https://youtu.be/x''" "Some ''talk.mp3''" "''base''" "0.5"
        stub_world]
    by (simp add: truthy_def str_of_def base_name_def)
  have a: "process_video stub_caps (Some ''hf_token'') (Some ''https://youtu.be/x'') None
       (Some ''talk.mp3'') ''base'' 0.5 [] stub_world =
      bind_act (bind_act (progress (1 / 10) ''Processing audio file...'') (\<lambda>_.
                  transform_mp3_to_wav stub_caps ''talk.mp3'' TEMP_AUDIO_FILE))
        (\<lambda>_. after_acquisition stub_caps (Some ''hf_token'') ''base'' 0.5 [] ''talk'')
        stub_world"
    using process_video_source_precedence [of "[]" None stub_caps "Some ''hf_token''"
        "Some ''https://youtu.be/x''" "Some ''talk.mp3''" "''base''" "0.5" stub_world]
    by (simp add: truthy_def str_of_def base_name_def)
  have u: "process_video stub_caps (Some ''hf_token'') (Some ''https://youtu.be/x'') None None
       ''base'' 0.5 [] stub_world =
      bind_act (bind_act (progress (1 / 10) ''Downloading video...'') (\<lambda>_.
                  fetch_youtube stub_caps ''https://youtu.be/x'' TEMP_VIDEO_FILE TEMP_AUDIO_FILE))
        (\<lambda>_. after_acquisition stub_caps (Some ''hf_token'') ''base'' 0.5 [] [])
        stub_world"
    using process_video_source_precedence [of "[]" None stub_caps "Some ''hf_token''"
        "Some ''https://youtu.be/x''" None "''base''" "0.5" stub_world]
    by (simp add: truthy_def str_of_def)
  show ?thesis
    unfolding v a u
    by (simp add: stub_acquire_video stub_acquire_audio stub_acquire_url)
qed

text \<open>
  Claim C8, as the code has it. The extractor makes no check of the window against the
  source or of start against end: whenever the source file is there and pydub's
  \<^verbatim>\<open>from_wav\<close>, its slice \<^verbatim>\<open>audio[start * 1000 : end * 1000]\<close> and its export succeed, the
  clip the slice gave is written to the track file and the extractor succeeds, whatever
  start and end are.
\<close>

theorem extract_audio_track_no_range_check:
  assumes "files w input_file = Some wav" and "from_wav caps wav = Inr audio"
    and "slice_ms caps audio (start_time * 1000) (end_time' * 1000) = Inr track"
    and "export_mp3 caps track = Inr mp3"
  shows "extract_audio_track caps input_file start_time end_time' track_file w =
    (Inr (), w\<lparr>files := (files w)(track_file \<mapsto> mp3)\<rparr>)"
  using assms by (rule extract_audio_track_run)

theorem extract_audio_track_no_range_check_witness:
  "extract_audio_track stub_caps TEMP_AUDIO_FILE 5 3 ''clip.mp3'' audio_world =
    (Inr (), audio_world\<lparr>files := (files audio_world)(''clip.mp3'' \<mapsto> [])\<rparr>)"
  using extract_audio_track_no_range_check [of audio_world TEMP_AUDIO_FILE six_seconds stub_caps
      six_seconds 5 3 "[]" "[]" "''clip.mp3''"] slice_backwards
  by (simp add: audio_world_def stub_caps_def)

text \<open>
  With a slice that follows pydub, a window that starts after the end of the six seconds
  of audio, and a window whose start is after its end, both give an empty clip and no error.
\<close>

theorem extract_audio_track_out_of_range_counterexample:
  "fst (extract_audio_track stub_caps TEMP_AUDIO_FILE 7 8 ''clip.mp3'' audio_world) = Inr ()
   \<and> fst (extract_audio_track stub_caps TEMP_AUDIO_FILE 5 3 ''clip.mp3'' audio_world) = Inr ()"
  by (simp add: extract_beyond extract_backwards)

text \<open>
  Claim C9, as the code has it. Start-up reads the token from the environment and never
  fails: the global holds the value, or \<^verbatim>\<open>None\<close> when the variable is not set. The token is
  looked at only by the diarization stage: a run that skips that stage is the same with
  and without it, and when the library refuses the token its error ends that stage, inside
  the pipeline.
\<close>

theorem startup_without_check:
  "startup env = Inr (env ''HUGGINGFACE_AUTH_TOKEN'')
   \<and> (''Speaker diarization'' \<in> set skip \<longrightarrow>
      process_video caps token youtube_url video_file audio_file model collar skip w =
      process_video caps None youtube_url video_file audio_file model collar skip w)
   \<and> (from_pretrained caps token = Inl e \<longrightarrow>
      generate_speaker_diarization caps token audio_file' w = (Inl e, w))"
  using skip_diarization_token [of skip caps token youtube_url video_file audio_file model collar]
    diarization_fails_at_from_pretrained [of caps token e audio_file' w]
  by (simp add: startup_def)

theorem startup_without_check_witness:
  "startup Map.empty = Inr None
   \<and> process_video stub_caps (Some ''hf_token'') None (Some ''meeting.mp4'') None ''base'' 0.5
        [''Speaker diarization''] stub_world =
     process_video stub_caps None None (Some ''meeting.mp4'') None ''base'' 0.5
        [''Speaker diarization''] stub_world
   \<and> generate_speaker_diarization stub_caps None TEMP_AUDIO_FILE audio_world =
       (Inl (CapabilityError ''authentication required''), audio_world)"
  using startup_without_check [of Map.empty "[''Speaker diarization'']" stub_caps
      "Some ''hf_token''" None "Some ''meeting.mp4''" None "''base''" "0.5" stub_world
      "CapabilityError ''authentication required''" TEMP_AUDIO_FILE]
    startup_without_check [of Map.empty "[]" stub_caps None None None None "''base''" "0.5"
      audio_world "CapabilityError ''authentication required''" TEMP_AUDIO_FILE]
  by (simp add: stub_caps_def)

text \<open>
  With no token in the environment start-up succeeds; the run that follows gets as far as
  the diarization stage, after the audio of the source has been written.
\<close>

theorem startup_missing_token_counterexample:
  "startup Map.empty = Inr None
   \<and> fst (process_video stub_caps None None (Some ''meeting.mp4'') None ''base'' 0.5 []
        stub_world) = Inl (CapabilityError ''authentication required'')
   \<and> files (snd (process_video stub_caps None None (Some ''meeting.mp4'') None ''base'' 0.5 []
        stub_world)) TEMP_AUDIO_FILE = Some six_seconds"
  using stub_run_no_token by (simp add: startup_def TEMP_AUDIO_FILE_def)

end
